theory Spec2Isabelle
  imports Complex_Main
begin

section \<open>Polyhedron geometry helpers of util.js\<close>

text \<open>
  The theory embeds the shape generators, the projection transforms and the colour
  helpers of util.js. JavaScript numbers are IEEE doubles. The generators only
  ever compute finite values and never divide by zero, so their numbers are modelled by
  exact reals (integers where the source only stores loop counters); the rounding of
  double arithmetic is not modelled there, the tolerance of \<open>isClose\<close> being there to
  absorb it. The projection transforms can divide by zero, so their numbers are modelled
  by the type \<open>jsnum\<close> below, which adds the non-finite values of a double to the reals.
  The colour helpers and the perspective projection are computed in double precision:
  every operation rounds its exact result to the nearest double, overflows to an
  infinity and underflows to zero.
\<close>

subsection \<open>Loops, indices and strings\<close>

text \<open>
  The loop \<^verbatim>\<open>for (let x = a; x < b; x += 2)\<close>: the values the counter takes, in order.
  The loops written \<^verbatim>\<open>s <= 1\<close> are \<open>loop2 (-1) 2\<close>, since the counter is an integer.
\<close>

function loop2 :: "int \<Rightarrow> int \<Rightarrow> int list" where
  "loop2 x b = (if x < b then x # loop2 (x + 2) b else [])"
  by pat_completeness auto
termination
  by (relation "measure (\<lambda>(x, b). nat (b - x))") auto

declare loop2.simps [simp del]

text \<open>The digits of \<^verbatim>\<open>Number.prototype.toString(radix)\<close> for a natural number.\<close>

definition digitChar :: "nat \<Rightarrow> char" where
  "digitChar d = ''0123456789abcdef'' ! d"

function natToString :: "nat \<Rightarrow> nat \<Rightarrow> string" where
  "natToString b n =
     (if b < 2 \<or> n < b then [digitChar n]
      else natToString b (n div b) @ [digitChar (n mod b)])"
  by pat_completeness auto
termination
  by (relation "measure (\<lambda>(b, n). n)") auto

declare natToString.simps [simp del]

text \<open>An integer-valued number printed in a radix, as a template literal or toString does.\<close>

definition intToString :: "nat \<Rightarrow> int \<Rightarrow> string" where
  "intToString b i =
     (if i < 0 then CHR ''-'' # natToString b (nat (- i)) else natToString b (nat i))"

text \<open>
  An edge \<^verbatim>\<open>{from: ..., to: ...}\<close>. An endpoint is a JavaScript number; \<open>None\<close> is
  \<^verbatim>\<open>undefined\<close>, which \<^verbatim>\<open>shift()\<close> returns on an empty array.
\<close>

record edge =
  line_from :: "int option"
  line_to :: int

subsection \<open>push and getCubePtsLinesFaces\<close>

text \<open>
  \<^verbatim>\<open>push(elt, prop, newItem)\<close>: the object is an association list in insertion order,
  which is the order \<^verbatim>\<open>Object.values\<close> enumerates keys that are not array indices.
\<close>

fun push :: "(string \<times> int list) list \<Rightarrow> string \<Rightarrow> int \<Rightarrow> (string \<times> int list) list" where
  "push [] prop newItem = [(prop, [newItem])]"
| "push ((k, vs) # elt) prop newItem =
     (if k = prop then (k, vs @ [newItem]) # elt else (k, vs) # push elt prop newItem)"

definition shift :: "int list \<Rightarrow> int option \<times> int list" where
  "shift st = (case st of [] \<Rightarrow> (None, []) | v # r \<Rightarrow> (Some v, r))"

record cube_state =
  cs_pts :: "int list list"
  cs_lines :: "edge list"
  cs_idx :: int
  cs_xStack :: "int list"
  cs_yStack :: "int list"
  cs_faceMap :: "(string \<times> int list) list"

definition cube_init :: cube_state where
  "cube_init = \<lparr>cs_pts = [], cs_lines = [], cs_idx = 0, cs_xStack = [], cs_yStack = [],
     cs_faceMap = []\<rparr>"

text \<open>The key \<^verbatim>\<open>`${i}:${pt[i]}`\<close> of the face map.\<close>

definition faceKey :: "nat \<Rightarrow> int \<Rightarrow> string" where
  "faceKey i v = intToString 10 (int i) @ '':'' @ intToString 10 v"

text \<open>The body of the innermost loop of getCubePtsLinesFaces, statement by statement.\<close>

definition cube_body :: "int \<Rightarrow> int \<Rightarrow> int \<Rightarrow> cube_state \<Rightarrow> cube_state" where
  "cube_body x y z s =
     (let idx = cs_idx s;
          xStack1 = (if x = -1 then cs_xStack s @ [idx] else cs_xStack s);
          yStack1 = (if y = -1 then cs_yStack s @ [idx] else cs_yStack s);
          pt = [x, y, z];
          pts1 = cs_pts s @ [pt];
          faceMap1 = fold (\<lambda>i m. push m (faceKey i (pt ! i)) idx) [0..<3] (cs_faceMap s);
          (lines1, xStack2) =
            (if x = 1 then (case shift xStack1 of (v, r) \<Rightarrow>
                 (cs_lines s @ [\<lparr>line_from = v, line_to = idx\<rparr>], r))
             else (cs_lines s, xStack1));
          (lines2, yStack2) =
            (if y = 1 then (case shift yStack1 of (v, r) \<Rightarrow>
                 (lines1 @ [\<lparr>line_from = v, line_to = idx\<rparr>], r))
             else (lines1, yStack1));
          lines3 =
            (if z = 1 then lines2 @ [\<lparr>line_from = Some (idx - 1), line_to = idx\<rparr>]
             else lines2)
      in \<lparr>cs_pts = pts1, cs_lines = lines3, cs_idx = idx + 1, cs_xStack = xStack2,
           cs_yStack = yStack2, cs_faceMap = faceMap1\<rparr>)"

definition cube_loops :: cube_state where
  "cube_loops =
     fold (\<lambda>x s. fold (\<lambda>y s. fold (\<lambda>z s. cube_body x y z s) (loop2 (-1) 3) s)
       (loop2 (-1) 3) s) (loop2 (-1) 3) cube_init"

definition getCubePtsLinesFaces :: "int list list \<times> edge list \<times> int list list" where
  "getCubePtsLinesFaces =
     (let s = cube_loops in (cs_pts s, cs_lines s, map snd (cs_faceMap s)))"

subsection \<open>vector.js\<close>

text \<open>
  Modelled from the spec: vector.js is not among the sources; the generators call its
  \<^verbatim>\<open>dot\<close>, \<^verbatim>\<open>len\<close> and \<^verbatim>\<open>dist\<close>. The spec names them the
  inner product \<open>\<langle>v, point\<rangle>\<close>, the Euclidean norm and the Euclidean distance.
\<close>

definition vdot :: "real list \<Rightarrow> real list \<Rightarrow> real" where
  "vdot v w = sum_list (map (\<lambda>(a, b). a * b) (zip v w))"

definition vlen :: "real list \<Rightarrow> real" where
  "vlen v = sqrt (vdot v v)"

definition vsub :: "real list \<Rightarrow> real list \<Rightarrow> real list" where
  "vsub v w = map (\<lambda>(a, b). a - b) (zip v w)"

definition vdist :: "real list \<Rightarrow> real list \<Rightarrow> real" where
  "vdist v w = vlen (vsub v w)"

subsection \<open>getTetrahedronPtsLinesFaces\<close>

definition getTetrahedronPtsLinesFaces :: "real list list \<times> edge list \<times> int list list" where
  "getTetrahedronPtsLinesFaces =
     (let sqrt2inv = 1 / sqrt 2;
          pts = concat (map (\<lambda>a. [[of_int a, 0, - sqrt2inv], [0, of_int a, sqrt2inv]])
                  (loop2 (-1) 2));
          lines = concat (map (\<lambda>i. map (\<lambda>j. \<lparr>line_from = Some (int i), line_to = int j\<rparr>)
                    [i + 1..<4]) [0..<3]);
          faces = map (\<lambda>i. map int (filter (\<lambda>j. i \<noteq> j) [0..<4])) [0..<4]
      in (pts, lines, faces))"

subsection \<open>The generators that match distances\<close>

definition isClose :: "real \<Rightarrow> real \<Rightarrow> bool" where
  "isClose a b = (\<bar>a - b\<bar> < 1 / 100000)"

definition phi :: real where
  "phi = (1 + sqrt 5) / 2"

text \<open>
  The loop under \<^verbatim>\<open>// Build up the lines array.\<close>, which the four generators repeat
  word for word but for the edge length: \<open>i\<close> from 0 below \<open>pts.length - 1\<close>, \<open>j\<close> from
  \<open>i + 1\<close> below \<open>pts.length\<close>.
\<close>

definition distLines :: "real list list \<Rightarrow> real \<Rightarrow> edge list" where
  "distLines pts edgeLen =
     concat (map (\<lambda>i. concat (map (\<lambda>j.
         if isClose (vdist (pts ! i) (pts ! j)) edgeLen
         then [\<lparr>line_from = Some (int i), line_to = int j\<rparr>] else [])
       [i + 1..<length pts])) [0..<length pts - 1])"

text \<open>
  The loop over all triples \<open>i < j < k\<close> of the icosahedron and the icosidodecahedron:
  a face is pushed when the three distances are close to the edge length.
\<close>

definition triFaces :: "real list list \<Rightarrow> real \<Rightarrow> int list list" where
  "triFaces pts edgeLen =
     concat (map (\<lambda>i. concat (map (\<lambda>j. concat (map (\<lambda>k.
         if isClose (vdist (pts ! i) (pts ! j)) edgeLen \<and>
            isClose (vdist (pts ! i) (pts ! k)) edgeLen \<and>
            isClose (vdist (pts ! j) (pts ! k)) edgeLen
         then [[int i, int j, int k]] else [])
       [j + 1..<length pts])) [i + 1..<length pts - 1])) [0..<length pts - 2])"

definition dodecahedronPts :: "real list list" where
  "dodecahedronPts =
     concat (map (\<lambda>s1. concat (map (\<lambda>s2. map (\<lambda>s3. [of_int s1, of_int s2, of_int s3])
       (loop2 (-1) 2)) (loop2 (-1) 2))) (loop2 (-1) 2))
     @ concat (map (\<lambda>s1. concat (map (\<lambda>s2.
         [[0, of_int s1 * phi, of_int s2 / phi],
          [of_int s1 / phi, 0, of_int s2 * phi],
          [of_int s1 * phi, of_int s2 / phi, 0]])
       (loop2 (-1) 2))) (loop2 (-1) 2))"

definition dodecahedronFaces :: "real list list \<Rightarrow> int list list" where
  "dodecahedronFaces pts =
     concat (map (\<lambda>coord1. let coord2 = (coord1 + 1) mod 3 in
       concat (map (\<lambda>s1. map (\<lambda>s2.
           map int (filter (\<lambda>i. let pt = pts ! i;
                                    lhs = pt ! coord1 + of_int s1 * phi * pt ! coord2
                                in isClose lhs (of_int s2 * phi * phi))
                     [0..<length pts]))
         (loop2 (-1) 2)) (loop2 (-1) 2))) [0..<3])"

definition getDodecahedronPtsLinesFaces :: "real list list \<times> edge list \<times> int list list" where
  "getDodecahedronPtsLinesFaces =
     (let pts = dodecahedronPts;
          edgeLen = 2 / phi
      in (pts, distLines pts edgeLen, dodecahedronFaces pts))"

definition icosahedronPts :: "real list list" where
  "icosahedronPts =
     concat (map (\<lambda>c1. let c2 = (c1 + 1) mod 3 in
       concat (map (\<lambda>s1. map (\<lambda>s2. [0, 0, 0][c1 := of_int s1, c2 := of_int s2 * phi])
         (loop2 (-1) 2)) (loop2 (-1) 2))) [0..<3])"

definition getIcosahedronPtsLinesFaces :: "real list list \<times> edge list \<times> int list list" where
  "getIcosahedronPtsLinesFaces =
     (let pts = icosahedronPts;
          edgeLen = 2
      in (pts, distLines pts edgeLen, triFaces pts edgeLen))"

definition cuboctahedronPts :: "real list list" where
  "cuboctahedronPts =
     concat (map (\<lambda>c1. let c2 = (c1 + 1) mod 3 in
       concat (map (\<lambda>s1. map (\<lambda>s2. [0, 0, 0][c1 := of_int s1, c2 := of_int s2])
         (loop2 (-1) 2)) (loop2 (-1) 2))) [0..<3])"

definition cuboctahedronFaces :: "real list list \<Rightarrow> int list list" where
  "cuboctahedronFaces pts =
     concat (map (\<lambda>c. map (\<lambda>s.
         map int (filter (\<lambda>i. pts ! i ! c = of_int s) [0..<length pts]))
       (loop2 (-1) 2)) [0..<3])
     @ concat (map (\<lambda>s1. concat (map (\<lambda>s2. map (\<lambda>s3.
         let s = [of_int s1, of_int s2, of_int s3] in
         map int (filter (\<lambda>i.
             let numMatches = length (filter (\<lambda>j. pts ! i ! j = s ! j) [0..<3])
             in numMatches = 2)
           [0..<length pts]))
       (loop2 (-1) 2)) (loop2 (-1) 2))) (loop2 (-1) 2))"

definition getCuboctahedronPtsLinesFaces :: "real list list \<times> edge list \<times> int list list" where
  "getCuboctahedronPtsLinesFaces =
     (let pts = cuboctahedronPts;
          edgeLen = sqrt 2
      in (pts, distLines pts edgeLen, cuboctahedronFaces pts))"

definition icosidodecahedronPts :: "real list list" where
  "icosidodecahedronPts =
     concat (map (\<lambda>c. map (\<lambda>s. [0, 0, 0][c := of_int s * phi]) (loop2 (-1) 2)) [0..<3])
     @ concat (map (\<lambda>c1. let c2 = (c1 + 1) mod 3; c3 = (c1 + 2) mod 3 in
         concat (map (\<lambda>s1. concat (map (\<lambda>s2. map (\<lambda>s3.
             [0, 0, 0][c1 := of_int s1 / 2, c2 := of_int s2 * phi / 2,
                       c3 := of_int s3 * phi * phi / 2])
           (loop2 (-1) 2)) (loop2 (-1) 2))) (loop2 (-1) 2))) [0..<3])"

text \<open>
  \<^verbatim>\<open>findPtsInPlane(v, c)\<close>. The source iterates with \<^verbatim>\<open>for (let i in pts)\<close>, so the
  indices it pushes are the keys "0", "1", ... of the array; the model keeps the numbers
  they denote.
\<close>

definition findPtsInPlane :: "real list list \<Rightarrow> real list \<Rightarrow> real \<Rightarrow> int list" where
  "findPtsInPlane pts v c =
     map int (filter (\<lambda>i. isClose (vdot v (pts ! i)) c) [0..<length pts])"

definition icosidodecahedronPentagons :: "real list list \<Rightarrow> int list list" where
  "icosidodecahedronPentagons pts =
     (let c = phi * phi / 2 in
      concat (map (\<lambda>c1. let c2 = (c1 + 1) mod 3; c3 = (c1 + 2) mod 3 in
        concat (map (\<lambda>s1. map (\<lambda>s2.
            let v = [0, 0, 0][c1 := of_int s1 * phi / 2, c2 := of_int s2 / 2]
            in findPtsInPlane pts v c)
          (loop2 (-1) 2)) (loop2 (-1) 2))) [0..<3]))"

definition getIcosidodecahedronPtsLinesFaces ::
    "real list list \<times> edge list \<times> int list list" where
  "getIcosidodecahedronPtsLinesFaces =
     (let pts = icosidodecahedronPts;
          edgeLen = 1
      in (pts, distLines pts edgeLen,
          triFaces pts edgeLen @ icosidodecahedronPentagons pts))"

section \<open>Numbers with non-finite values\<close>

text \<open>
  A JavaScript number where division by zero can occur: a real, an infinity or NaN.
  Zero has no sign: a zero divisor counts as \<open>+0\<close>, which is the zero the transforms
  below divide by (a square root, or a difference \<open>x - x\<close>). \<^verbatim>\<open>undefined\<close> in arithmetic
  is NaN. The operations \<open>nadd\<close>, \<open>nmul\<close>, \<open>ndiv\<close> and \<open>nsqrt\<close> (written \<open>+\<close>, \<open>-\<close>, \<open>*\<close>,
  \<open>/\<close>) give the exact result on finite operands and the result of a double on the
  others; the operations that round as a double does follow them.
\<close>

datatype jsnum = Fin real | PInf | NInf | NaN

fun nneg :: "jsnum \<Rightarrow> jsnum" where
  "nneg (Fin a) = Fin (- a)"
| "nneg PInf = NInf"
| "nneg NInf = PInf"
| "nneg NaN = NaN"

fun nadd :: "jsnum \<Rightarrow> jsnum \<Rightarrow> jsnum" where
  "nadd (Fin a) (Fin b) = Fin (a + b)"
| "nadd NaN y = NaN"
| "nadd x NaN = NaN"
| "nadd PInf NInf = NaN"
| "nadd NInf PInf = NaN"
| "nadd PInf y = PInf"
| "nadd x PInf = PInf"
| "nadd NInf y = NInf"
| "nadd x NInf = NInf"

text \<open>The sign of a number that is not NaN: the product of an infinity with it.\<close>

fun nsgn :: "jsnum \<Rightarrow> int" where
  "nsgn (Fin a) = (if a < 0 then - 1 else if a = 0 then 0 else 1)"
| "nsgn PInf = 1"
| "nsgn NInf = - 1"
| "nsgn NaN = 0"

definition infOfSign :: "int \<Rightarrow> jsnum" where
  "infOfSign s = (if s = 0 then NaN else if 0 < s then PInf else NInf)"

fun nmul :: "jsnum \<Rightarrow> jsnum \<Rightarrow> jsnum" where
  "nmul (Fin a) (Fin b) = Fin (a * b)"
| "nmul NaN y = NaN"
| "nmul x NaN = NaN"
| "nmul x y = infOfSign (nsgn x * nsgn y)"

fun ndiv :: "jsnum \<Rightarrow> jsnum \<Rightarrow> jsnum" where
  "ndiv (Fin a) (Fin b) =
     (if b = 0 then (if a = 0 then NaN else if 0 < a then PInf else NInf) else Fin (a / b))"
| "ndiv NaN y = NaN"
| "ndiv x NaN = NaN"
| "ndiv (Fin a) y = Fin 0"
| "ndiv x (Fin b) = (if 0 \<le> b then x else nneg x)"
| "ndiv x y = NaN"

fun nsqrt :: "jsnum \<Rightarrow> jsnum" where
  "nsqrt (Fin a) = (if a < 0 then NaN else Fin (sqrt a))"
| "nsqrt PInf = PInf"
| "nsqrt NInf = NaN"
| "nsqrt NaN = NaN"

fun nceil :: "jsnum \<Rightarrow> jsnum" where
  "nceil (Fin a) = Fin (of_int \<lceil>a\<rceil>)"
| "nceil x = x"

fun ncos :: "jsnum \<Rightarrow> jsnum" where
  "ncos (Fin a) = Fin (cos a)"
| "ncos x = NaN"

fun nsin :: "jsnum \<Rightarrow> jsnum" where
  "nsin (Fin a) = Fin (sin a)"
| "nsin x = NaN"

fun nless :: "jsnum \<Rightarrow> jsnum \<Rightarrow> bool" where
  "nless (Fin a) (Fin b) = (a < b)"
| "nless NaN y = False"
| "nless x NaN = False"
| "nless x PInf = (x \<noteq> PInf)"
| "nless NInf y = (y \<noteq> NInf)"
| "nless x y = False"

instantiation jsnum :: "{plus, minus, uminus, times, inverse}"
begin

definition plus_jsnum :: "jsnum \<Rightarrow> jsnum \<Rightarrow> jsnum" where
  "plus_jsnum x y = nadd x y"

definition minus_jsnum :: "jsnum \<Rightarrow> jsnum \<Rightarrow> jsnum" where
  "minus_jsnum x y = nadd x (nneg y)"

definition uminus_jsnum :: "jsnum \<Rightarrow> jsnum" where
  "uminus_jsnum x = nneg x"

definition times_jsnum :: "jsnum \<Rightarrow> jsnum \<Rightarrow> jsnum" where
  "times_jsnum x y = nmul x y"

definition divide_jsnum :: "jsnum \<Rightarrow> jsnum \<Rightarrow> jsnum" where
  "divide_jsnum x y = ndiv x y"

definition inverse_jsnum :: "jsnum \<Rightarrow> jsnum" where
  "inverse_jsnum x = ndiv (Fin 1) x"

instance ..

end

text \<open>\<^verbatim>\<open>Math.min(...xs)\<close> and \<^verbatim>\<open>Math.max(...xs)\<close>: NaN as soon as an argument is.\<close>

definition min2 :: "jsnum \<Rightarrow> jsnum \<Rightarrow> jsnum" where
  "min2 x y = (if x = NaN \<or> y = NaN then NaN else if nless y x then y else x)"

definition max2 :: "jsnum \<Rightarrow> jsnum \<Rightarrow> jsnum" where
  "max2 x y = (if x = NaN \<or> y = NaN then NaN else if nless x y then y else x)"

definition mathMin :: "jsnum list \<Rightarrow> jsnum" where
  "mathMin xs = fold (\<lambda>x m. min2 m x) xs PInf"

definition mathMax :: "jsnum list \<Rightarrow> jsnum" where
  "mathMax xs = fold (\<lambda>x m. max2 m x) xs NInf"

text \<open>\<^verbatim>\<open>pt[i]\<close> read as a number: \<^verbatim>\<open>undefined\<close> past the end, NaN in arithmetic.\<close>

definition coordAt :: "jsnum list \<Rightarrow> nat \<Rightarrow> jsnum" where
  "coordAt pt i = (if i < length pt then pt ! i else NaN)"

subsection \<open>Rounding to double precision\<close>

text \<open>
  A finite double is zero or \<open>\<plusminus> k * 2 ^ (e - 52)\<close> for an integer \<open>k < 2 ^ 53\<close> and an
  exponent \<open>e\<close> from \<open>-1022\<close> to \<open>1023\<close> (\<open>k < 2 ^ 52\<close> only at \<open>e = -1022\<close>, the subnormal
  numbers). \<open>binade a\<close> is the exponent of the doubles around \<open>a > 0\<close>: the \<open>e\<close> with
  \<open>2 ^ e \<le> a < 2 ^ (e + 1)\<close>, kept between \<open>-1022\<close> and \<open>1023\<close>. It is found by halving
  or doubling, at most as often as there are exponents.
\<close>

fun binadeUp :: "nat \<Rightarrow> real \<Rightarrow> int" where
  "binadeUp 0 a = 0"
| "binadeUp (Suc k) a = (if a < 2 then 0 else 1 + binadeUp k (a / 2))"

fun binadeDown :: "nat \<Rightarrow> real \<Rightarrow> int" where
  "binadeDown 0 a = 0"
| "binadeDown (Suc k) a = (if 1 \<le> a then 0 else binadeDown k (2 * a) - 1)"

definition binade :: "real \<Rightarrow> int" where
  "binade a = (if 1 \<le> a then binadeUp 1023 a else binadeDown 1022 a)"

definition pow2 :: "int \<Rightarrow> real" where
  "pow2 e = (if 0 \<le> e then 2 ^ nat e else 1 / 2 ^ nat (- e))"

text \<open>Rounding to the nearest integer, a tie to the even one.\<close>

definition roundHalfEven :: "real \<Rightarrow> int" where
  "roundHalfEven m =
     (let f = \<lfloor>m\<rfloor>; d = m - of_int f in
      if d < 1 / 2 then f else if 1 / 2 < d then f + 1 else if even f then f else f + 1)"

text \<open>
  \<open>rdMag a\<close> is the multiple of the spacing \<open>2 ^ (binade a - 52)\<close> that is nearest to
  \<open>a > 0\<close>, and \<open>rd x\<close> the double an operation returns when its exact result is \<open>x\<close>:
  an infinity when the rounded magnitude reaches \<open>2 ^ 1024\<close>.
\<close>

definition rdMag :: "real \<Rightarrow> real" where
  "rdMag a = of_int (roundHalfEven (a / pow2 (binade a - 52))) * pow2 (binade a - 52)"

definition rd :: "real \<Rightarrow> jsnum" where
  "rd x =
     (if x = 0 then Fin 0
      else if pow2 1024 \<le> rdMag \<bar>x\<bar> then (if 0 < x then PInf else NInf)
      else Fin (sgn x * rdMag \<bar>x\<bar>))"

text \<open>The values of \<open>jsnum\<close> that a double can hold.\<close>

fun isDouble :: "jsnum \<Rightarrow> bool" where
  "isDouble (Fin a) = (rd a = Fin a)"
| "isDouble x = True"

text \<open>
  The operators \<^verbatim>\<open>+\<close>, \<^verbatim>\<open>-\<close>, \<^verbatim>\<open>*\<close> and \<^verbatim>\<open>/\<close> of doubles: the exact result of finite
  operands is rounded; a zero divisor and the operands that are not finite are treated
  as above.
\<close>

fun fadd :: "jsnum \<Rightarrow> jsnum \<Rightarrow> jsnum" where
  "fadd (Fin a) (Fin b) = rd (a + b)"
| "fadd x y = nadd x y"

definition fsub :: "jsnum \<Rightarrow> jsnum \<Rightarrow> jsnum" where
  "fsub x y = fadd x (nneg y)"

fun fmul :: "jsnum \<Rightarrow> jsnum \<Rightarrow> jsnum" where
  "fmul (Fin a) (Fin b) = rd (a * b)"
| "fmul x y = nmul x y"

fun fdiv :: "jsnum \<Rightarrow> jsnum \<Rightarrow> jsnum" where
  "fdiv (Fin a) (Fin b) = (if b = 0 then ndiv (Fin a) (Fin b) else rd (a / b))"
| "fdiv x y = ndiv x y"

text \<open>The comparison \<^verbatim>\<open>x <= y\<close>: false as soon as an operand is NaN.\<close>

definition nle :: "jsnum \<Rightarrow> jsnum \<Rightarrow> bool" where
  "nle x y = (nless x y \<or> (x = y \<and> x \<noteq> NaN))"

section \<open>Colour helpers\<close>

text \<open>
  \<^verbatim>\<open>parseInt(s, 16)\<close>: leading white space, a sign and a prefix \<^verbatim>\<open>0x\<close> are skipped,
  then the longest run of hexadecimal digits is read; NaN when there is none. The
  result is the double nearest to the integer read. Strings are lists of ASCII
  characters.
\<close>

definition hexDigitVal :: "char \<Rightarrow> nat option" where
  "hexDigitVal c =
     (let n = of_char c :: nat in
      if 48 \<le> n \<and> n \<le> 57 then Some (n - 48)
      else if 97 \<le> n \<and> n \<le> 102 then Some (n - 87)
      else if 65 \<le> n \<and> n \<le> 70 then Some (n - 55)
      else None)"

definition isWhite :: "char \<Rightarrow> bool" where
  "isWhite c = (of_char c \<in> {9, 10, 11, 12, 13, 32 :: nat})"

definition parseInt16 :: "string \<Rightarrow> jsnum" where
  "parseInt16 s =
     (let s1 = dropWhile isWhite s;
          (sign, s2) = (case s1 of
              c # r \<Rightarrow> if c = CHR ''-'' then (- 1, r) else if c = CHR ''+'' then (1, r)
                       else (1, s1)
            | [] \<Rightarrow> (1 :: int, s1));
          s3 = (if take 2 s2 = ''0x'' \<or> take 2 s2 = ''0X'' then drop 2 s2 else s2);
          ds = map (\<lambda>c. the (hexDigitVal c)) (takeWhile (\<lambda>c. hexDigitVal c \<noteq> None) s3)
      in if ds = [] then NaN
         else rd (of_int (sign * int (foldl (\<lambda>v d. 16 * v + d) 0 ds))))"

text \<open>\<^verbatim>\<open>s.substr(start, len)\<close> for a start that is not negative.\<close>

definition substr :: "string \<Rightarrow> nat \<Rightarrow> nat \<Rightarrow> string" where
  "substr s start len = take len (drop start s)"

definition padStart :: "nat \<Rightarrow> char \<Rightarrow> string \<Rightarrow> string" where
  "padStart n c s = replicate (n - length s) c @ s"

text \<open>
  \<^verbatim>\<open>toString(radix)\<close> of a number that is an integer or not finite, which is what
  \<^verbatim>\<open>Math.ceil\<close> returns.
\<close>

fun numToString :: "nat \<Rightarrow> jsnum \<Rightarrow> string" where
  "numToString b (Fin a) = intToString b \<lfloor>a\<rfloor>"
| "numToString b PInf = ''Infinity''"
| "numToString b NInf = ''-Infinity''"
| "numToString b NaN = ''NaN''"

definition hex :: "jsnum \<Rightarrow> string" where
  "hex d = padStart 2 CHR ''0'' (numToString 16 (nceil (fmul d (Fin 255))))"

text \<open>
  getStdColor. \<^verbatim>\<open>console.assert\<close> reports a string that does not start with \<^verbatim>\<open>#\<close>
  and goes on; \<open>getStdColor_assert\<close> is the condition it checks.
\<close>

definition getStdColor_assert :: "string \<Rightarrow> bool" where
  "getStdColor_assert colorStr = (take 1 colorStr = ''#'')"

definition getStdColor :: "string \<Rightarrow> jsnum list" where
  "getStdColor colorStr =
     (let nDigits = (if length colorStr = 7 then 2 else 1 :: nat) in
      map (\<lambda>i. let channelStr = substr colorStr (1 + nDigits * i) nDigits;
                    channelStr = (if nDigits = 1 then channelStr @ channelStr else channelStr)
                in fdiv (parseInt16 channelStr) (Fin 255))
        [0..<3])"

text \<open>
  getColorStr: the first argument is the global \<^verbatim>\<open>ctx.stdColor\<close>, read when the colour
  is \<^verbatim>\<open>undefined\<close>.
\<close>

definition getColorStr :: "jsnum list \<Rightarrow> jsnum list option \<Rightarrow> string" where
  "getColorStr stdColor c =
     (case c of Some c' \<Rightarrow> CHR ''#'' # concat (map hex c')
      | None \<Rightarrow> CHR ''#'' # concat (map hex stdColor))"

section \<open>Projection transforms\<close>

text \<open>
  A point is an array of numbers that may carry a \<^verbatim>\<open>label\<close> property. The radial
  transforms assign to the label of the points they are given, and a list may hold the
  same array twice, so the arrays live in a store and a list of points is a list of
  addresses. The points a transform returns are new arrays and are returned as values.
\<close>

record point =
  coords :: "jsnum list"
  label :: "string option"

type_synonym addr = nat

type_synonym store = "addr \<Rightarrow> point"

text \<open>\<^verbatim>\<open>labels[i]\<close>: \<^verbatim>\<open>undefined\<close> (\<open>None\<close>) past the end of the list.\<close>

definition labelAt :: "string list \<Rightarrow> nat \<Rightarrow> string option" where
  "labelAt labels i = (if i < length labels then Some (labels ! i) else None)"

text \<open>
  An optional argument: \<^verbatim>\<open>undefined\<close>, a number, or a boolean (explode3DPoints takes
  \<^verbatim>\<open>doKeepCoords\<close> in the place of \<^verbatim>\<open>aMin\<close> when \<^verbatim>\<open>aMax\<close> is not given).
\<close>

datatype arg = Undefined | Number jsnum | Boolean bool

fun toNumber :: "arg \<Rightarrow> jsnum" where
  "toNumber Undefined = NaN"
| "toNumber (Number x) = x"
| "toNumber (Boolean b) = Fin (if b then 1 else 0)"

fun truthy :: "arg \<Rightarrow> bool" where
  "truthy Undefined = False"
| "truthy (Number x) = (x \<noteq> Fin 0 \<and> x \<noteq> NaN)"
| "truthy (Boolean b) = b"

text \<open>
  Modelled from the spec: vector.js and matrix.js are not among the sources. The
  transforms call \<^verbatim>\<open>vector.len\<close> (the spec: the Euclidean norm) and
  \<^verbatim>\<open>matrix.rotateXY\<close>, \<^verbatim>\<open>matrix.mult\<close>, \<^verbatim>\<open>matrix.transpose\<close> (the spec: a 2D rotation
  by the angle, applied to the point as a column).
\<close>

definition nsum :: "jsnum list \<Rightarrow> jsnum" where
  "nsum xs = foldl (+) (Fin 0) xs"

definition vectorLen :: "jsnum list \<Rightarrow> jsnum" where
  "vectorLen v = nsqrt (nsum (map (\<lambda>x. x * x) v))"

definition rotateXY :: "jsnum \<Rightarrow> jsnum list list" where
  "rotateXY a = [[ncos a, - nsin a], [nsin a, ncos a]]"

definition mtranspose :: "jsnum list list \<Rightarrow> jsnum list list" where
  "mtranspose m =
     (case m of [] \<Rightarrow> []
      | r # _ \<Rightarrow> map (\<lambda>j. map (\<lambda>row. coordAt row j) m) [0..<length r])"

definition mmult :: "jsnum list list \<Rightarrow> jsnum list list \<Rightarrow> jsnum list list" where
  "mmult A B =
     map (\<lambda>row. map (\<lambda>col. nsum (map (\<lambda>(x, y). x * y) (zip row col))) (mtranspose B)) A"

subsection \<open>explode3DPoints\<close>

text \<open>
  The two radial transforms are written with the exact operations. What is proved of
  them below is their frame (the length of the result, the labels, the store) and the
  NaN of a division of zero by zero, which rounding does not change; nothing is stated
  of the finite coordinates they compute.
\<close>

text \<open>\<^verbatim>\<open>findR\<close> and \<^verbatim>\<open>findA\<close>, with the variables they close over as arguments.\<close>

definition findR :: "jsnum \<Rightarrow> jsnum \<Rightarrow> jsnum \<Rightarrow> jsnum \<Rightarrow> jsnum \<Rightarrow> jsnum" where
  "findR rMin rMax xMin xMax x = rMin + (rMax - rMin) * (x - xMin) / (xMax - xMin)"

definition findA :: "arg \<Rightarrow> arg \<Rightarrow> jsnum \<Rightarrow> jsnum \<Rightarrow> jsnum \<Rightarrow> jsnum" where
  "findA aMin aMax xMin xMax x =
     toNumber aMin + (toNumber aMax - toNumber aMin) * (x - xMin) / (xMax - xMin)"

text \<open>
  The body of the loop from \<^verbatim>\<open>let len\<close> to the rotation: the coordinates of the new
  point, from the coordinates \<open>pt\<close> of the old one.
\<close>

definition explode3DCoords ::
    "jsnum \<Rightarrow> jsnum \<Rightarrow> arg \<Rightarrow> arg \<Rightarrow> arg \<Rightarrow> jsnum \<Rightarrow> jsnum \<Rightarrow> jsnum list \<Rightarrow> jsnum list" where
  "explode3DCoords rMin rMax aMin aMax doKeepCoords xMin xMax pt =
     (let len = nsqrt (coordAt pt 1 * coordAt pt 1 + coordAt pt 2 * coordAt pt 2);
          r = findR rMin rMax xMin xMax (coordAt pt 0);
          newPt = (if truthy doKeepCoords
                   then [coordAt pt 1 / len * r, coordAt pt 2 / len * r]
                   else [- coordAt pt 2 / len * r, coordAt pt 1 / len * r])
      in if aMin \<noteq> Undefined \<and> aMax \<noteq> Undefined
         then (let a = findA aMin aMax xMin xMax (coordAt pt 0) in
               case mtranspose (mmult (rotateXY a) (mtranspose [newPt])) of
                 [] \<Rightarrow> [] | row # _ \<Rightarrow> row)
         else newPt)"

text \<open>
  One turn of the loop \<^verbatim>\<open>for (let i in pts)\<close>: the label is written to the old
  point in the store, then read back for the new point.
\<close>

definition explodeStep ::
    "(jsnum list \<Rightarrow> jsnum list) \<Rightarrow> addr list \<Rightarrow> string list \<Rightarrow> nat \<Rightarrow>
     point list \<times> store \<Rightarrow> point list \<times> store" where
  "explodeStep f pts labels i st =
     (case st of (newP, h) \<Rightarrow>
        let pt = (h (pts ! i))\<lparr>label := labelAt labels i\<rparr>;
            h1 = h(pts ! i := pt);
            newPt = \<lparr>coords = f (coords pt), label = label pt\<rparr>
        in (newP @ [newPt], h1))"

definition explode3DPoints ::
    "store \<Rightarrow> addr list \<Rightarrow> string list \<Rightarrow> jsnum \<Rightarrow> jsnum \<Rightarrow> arg \<Rightarrow> arg \<Rightarrow> arg \<Rightarrow>
     point list \<times> store" where
  "explode3DPoints h pts labels rMin rMax aMin aMax doKeepCoords =
     (let doKeepCoords1 = (if aMax = Undefined then aMin else doKeepCoords);
          xMin = mathMin (map (\<lambda>x. coordAt (coords (h x)) 0) pts);
          xMax = mathMax (map (\<lambda>x. coordAt (coords (h x)) 0) pts)
      in fold (explodeStep (explode3DCoords rMin rMax aMin aMax doKeepCoords1 xMin xMax)
           pts labels) [0..<length pts] ([], h))"

subsection \<open>explodeNDPoints\<close>

definition explodeNDCoords :: "jsnum \<Rightarrow> jsnum \<Rightarrow> jsnum \<Rightarrow> jsnum \<Rightarrow> jsnum list \<Rightarrow> jsnum list" where
  "explodeNDCoords rMin rMax xMin xMax pt =
     (let q = drop 1 pt;
          len = vectorLen q;
          r = findR rMin rMax xMin xMax (coordAt pt 0)
      in map (\<lambda>x. x / len * r) q)"

definition explodeNDPoints ::
    "store \<Rightarrow> addr list \<Rightarrow> string list \<Rightarrow> jsnum \<Rightarrow> jsnum \<Rightarrow> point list \<times> store" where
  "explodeNDPoints h pts labels rMin rMax =
     (let xMin = mathMin (map (\<lambda>x. coordAt (coords (h x)) 0) pts);
          xMax = mathMax (map (\<lambda>x. coordAt (coords (h x)) 0) pts)
      in fold (explodeStep (explodeNDCoords rMin rMax xMin xMax) pts labels)
           [0..<length pts] ([], h))"

subsection \<open>perspectiveProjectPoints\<close>

text \<open>
  The translated depth \<^verbatim>\<open>z = pt[0] - zMin + minZVal\<close> of a point, in double precision:
  the difference is rounded, then the sum.
\<close>

definition perspectiveZ :: "jsnum \<Rightarrow> jsnum \<Rightarrow> jsnum list \<Rightarrow> jsnum" where
  "perspectiveZ zMin minZVal pt = fadd (fsub (coordAt pt 0) zMin) minZVal"

text \<open>
  perspectiveProjectPoints reads the points and assigns to none of them, so the store
  is an argument only.
\<close>

definition perspectiveProjectPoints :: "store \<Rightarrow> addr list \<Rightarrow> string list \<Rightarrow> arg \<Rightarrow> point list" where
  "perspectiveProjectPoints h pts labels minZVal =
     (let minZVal1 = (if minZVal = Undefined then Fin 2 else toNumber minZVal);
          zMin = mathMin (map (\<lambda>x. coordAt (coords (h x)) 0) pts)
      in map (\<lambda>i. let pt = coords (h (pts ! i));
                    tail = drop 1 pt;
                    z = perspectiveZ zMin minZVal1 pt
                in \<lparr>coords = map (\<lambda>x. fdiv x z) tail, label = labelAt labels i\<rparr>)
           [0..<length pts])"

section \<open>Exact arithmetic for the distance tests\<close>

text \<open>
  The coordinates of the solids lie in the fields generated over the rationals by
  \<open>sqrt 5\<close> or by \<open>sqrt 2\<close>. A number \<open>a + b * sqrt n\<close> with rational \<open>a\<close>, \<open>b\<close> is the pair \<open>(a, b)\<close>; its sign, and with it every test
  \<open>isClose (vdist p q) e\<close>, is decided by rational arithmetic. These definitions are
  proof devices: the lemmas below tie them to the real-valued model of the source.
\<close>

type_synonym qn = "rat \<times> rat"

definition ev :: "nat \<Rightarrow> qn \<Rightarrow> real" where
  "ev n x = of_rat (fst x) + of_rat (snd x) * sqrt (real n)"

definition qadd :: "qn \<Rightarrow> qn \<Rightarrow> qn" where
  "qadd x y = (fst x + fst y, snd x + snd y)"

definition qsub :: "qn \<Rightarrow> qn \<Rightarrow> qn" where
  "qsub x y = (fst x - fst y, snd x - snd y)"

definition qmul :: "nat \<Rightarrow> qn \<Rightarrow> qn \<Rightarrow> qn" where
  "qmul n x y = (fst x * fst y + of_nat n * snd x * snd y, fst x * snd y + snd x * fst y)"

definition qpos :: "nat \<Rightarrow> qn \<Rightarrow> bool" where
  "qpos n x =
     (let a = fst x; b = snd x in
      if 0 \<le> a \<and> 0 \<le> b then 0 < a \<or> 0 < b
      else if 0 \<le> a then of_nat n * (b * b) < a * a
      else if 0 \<le> b then a * a < of_nat n * (b * b)
      else False)"

lemma ev_qadd: "ev n (qadd x y) = ev n x + ev n y"
  by (simp add: ev_def qadd_def of_rat_add algebra_simps)

lemma ev_qsub: "ev n (qsub x y) = ev n x - ev n y"
  by (simp add: ev_def qsub_def of_rat_diff algebra_simps)

lemma ev_qmul: "ev n (qmul n x y) = ev n x * ev n y"
proof -
  have s: "sqrt (real n) * sqrt (real n) = real n" by simp
  have "ev n x * ev n y =
      of_rat (fst x) * of_rat (fst y) + of_rat (snd x) * of_rat (snd y) * (sqrt (real n) * sqrt (real n))
      + (of_rat (fst x) * of_rat (snd y) + of_rat (snd x) * of_rat (fst y)) * sqrt (real n)"
    unfolding ev_def by (simp add: algebra_simps)
  also have "\<dots> = ev n (qmul n x y)"
    unfolding s by (simp add: ev_def qmul_def of_rat_add of_rat_mult algebra_simps)
  finally show ?thesis by simp
qed

lemma sq_less_iff: "0 \<le> (u::real) \<Longrightarrow> 0 \<le> v \<Longrightarrow> (u < v) = (u * u < v * v)"
  by (metis abs_of_nonneg abs_less_iff mult_less_cancel_left_pos mult_strict_mono' not_less not_less_iff_gr_or_eq mult_mono order_less_le)

lemma qpos_iff: 
  assumes "0 < n" shows "qpos n x = (0 < ev n x)"
proof -
  obtain a b where x: "x = (a, b)" by (cases x)
  define s where "s = sqrt (real n)"
  have s0: "0 < s" using assms by (simp add: s_def)
  have ss: "s * s = real n" by (simp add: s_def)
  define A where "A = (of_rat a :: real)"
  define B where "B = (of_rat b :: real)"
  have sgn: "(0 \<le> a) = (0 \<le> A)" "(0 \<le> b) = (0 \<le> B)" "(0 < a) = (0 < A)" "(0 < b) = (0 < B)"
    by (simp_all add: A_def B_def)
  have cmp1: "(of_nat n * (b * b) < a * a) = (real n * (B * B) < A * A)"
  proof -
    have "(of_nat n * (b * b) < a * a) = ((of_rat (of_nat n * (b * b)) :: real) < of_rat (a * a))"
      by (simp only: of_rat_less)
    then show ?thesis by (simp add: A_def B_def of_rat_mult)
  qed
  have cmp2: "(a * a < of_nat n * (b * b)) = (A * A < real n * (B * B))"
  proof -
    have "(a * a < of_nat n * (b * b)) = ((of_rat (a * a) :: real) < of_rat (of_nat n * (b * b)))"
      by (simp only: of_rat_less)
    then show ?thesis by (simp add: A_def B_def of_rat_mult)
  qed
  have e: "ev n (a, b) = A + B * s" by (simp add: ev_def A_def B_def s_def)
  have bs: "(B * s) * (B * s) = real n * (B * B)" using ss by (simp add: algebra_simps)
  have bs2: "(- (B * s)) * (- (B * s)) = real n * (B * B)"
    unfolding minus_mult_minus by (rule bs)
  have A2: "(- A) * (- A) = A * A" by simp
  show ?thesis
  proof (cases "0 \<le> A")
    case A: True
    show ?thesis
    proof (cases "0 \<le> B")
      case True
      have "(0 < A + B * s) = (0 < A \<or> 0 < B)"
      proof
        assume "0 < A + B * s"
        show "0 < A \<or> 0 < B"
        proof (rule ccontr)
          assume "\<not> (0 < A \<or> 0 < B)"
          then have "A = 0" "B = 0" using A True by auto
          with \<open>0 < A + B * s\<close> show False by simp
        qed
      next
        assume "0 < A \<or> 0 < B"
        then show "0 < A + B * s"
        proof
          assume "0 < A"
          moreover have "0 \<le> B * s" using True s0 by simp
          ultimately show ?thesis by linarith
        next
          assume "0 < B"
          then have "0 < B * s" using s0 by simp
          then show ?thesis using A by linarith
        qed
      qed
      then show ?thesis using A True by (simp add: qpos_def x e sgn Let_def)
    next
      case False
      then have Bn: "B < 0" by simp
      have nn: "0 \<le> - (B * s)" using Bn s0 by (simp add: mult_le_0_iff)
      have "(0 < A + B * s) = (- (B * s) < A)" by auto
      also have "\<dots> = ((- (B * s)) * (- (B * s)) < A * A)" using sq_less_iff [OF nn A] .
      also have "\<dots> = (real n * (B * B) < A * A)" by (simp only: bs2)
      finally show ?thesis using A False by (simp add: qpos_def x e sgn cmp1 Let_def)
    qed
  next
    case An: False
    show ?thesis
    proof (cases "0 \<le> B")
      case True
      have nn: "0 \<le> B * s" using True s0 by simp
      have nA: "0 \<le> - A" using An by simp
      have "(0 < A + B * s) = (- A < B * s)" by auto
      also have "\<dots> = ((- A) * (- A) < (B * s) * (B * s))" using sq_less_iff [OF nA nn] .
      also have "\<dots> = (A * A < real n * (B * B))" by (simp only: bs A2)
      finally show ?thesis using An True by (simp add: qpos_def x e sgn cmp2 Let_def)
    next
      case False
      then have "B * s < 0" using s0 by (simp add: mult_less_0_iff)
      then have "\<not> 0 < A + B * s" using An by linarith
      then show ?thesis using An False by (simp add: qpos_def x e sgn Let_def)
    qed
  qed
qed


definition qdist2 :: "nat \<Rightarrow> qn list \<Rightarrow> qn list \<Rightarrow> qn" where
  "qdist2 n p q = foldr (\<lambda>(a, b) acc. qadd (qmul n (qsub a b) (qsub a b)) acc) (zip p q) (0, 0)"

definition qeps :: qn where
  "qeps = (1 / 100000, 0)"

definition qclose :: "nat \<Rightarrow> qn \<Rightarrow> qn \<Rightarrow> bool" where
  "qclose n d e =
     (qpos n (qsub d (qmul n (qsub e qeps) (qsub e qeps))) \<and>
      qpos n (qsub (qmul n (qadd e qeps) (qadd e qeps)) d))"

definition distLinesQ :: "nat \<Rightarrow> qn list list \<Rightarrow> qn \<Rightarrow> edge list" where
  "distLinesQ n pts edgeLen =
     concat (map (\<lambda>i. concat (map (\<lambda>j.
         if qclose n (qdist2 n (pts ! i) (pts ! j)) edgeLen
         then [\<lparr>line_from = Some (int i), line_to = int j\<rparr>] else [])
       [i + 1..<length pts])) [0..<length pts - 1])"

lemma vdot_self_nonneg: "0 \<le> vdot v v"
  unfolding vdot_def by (induction v) auto

lemma ev_qdist2: "ev n (qdist2 n p q) = vdot (vsub (map (ev n) p) (map (ev n) q)) (vsub (map (ev n) p) (map (ev n) q))"
proof (induction p arbitrary: q)
  case Nil
  show ?case by (simp add: qdist2_def vdot_def vsub_def ev_def)
next
  case (Cons a p)
  show ?case
  proof (cases q)
    case Nil
    then show ?thesis by (simp add: qdist2_def vdot_def vsub_def ev_def)
  next
    case (Cons b q')
    have "qdist2 n (a # p) (b # q') = qadd (qmul n (qsub a b) (qsub a b)) (qdist2 n p q')"
      by (simp add: qdist2_def)
    then show ?thesis
      using Cons.IH [of q'] Cons
      by (simp add: ev_qadd ev_qmul ev_qsub vdot_def vsub_def)
  qed
qed

lemma ev_qeps: "ev n qeps = 1 / 100000"
  by (simp add: ev_def qeps_def of_rat_divide)

lemma isClose_sqrt:
  assumes d: "0 \<le> d" and e: "1 / 100000 < e"
  shows "isClose (sqrt d) e = ((e - 1 / 100000) * (e - 1 / 100000) < d \<and> d < (e + 1 / 100000) * (e + 1 / 100000))"
proof -
  have lo: "0 \<le> e - 1 / 100000" and hi: "0 \<le> e + 1 / 100000" using e by simp_all
  have sd: "0 \<le> sqrt d" using d by simp
  have sq: "sqrt d * sqrt d = d" using d by simp
  have "isClose (sqrt d) e = (e - 1 / 100000 < sqrt d \<and> sqrt d < e + 1 / 100000)"
    unfolding isClose_def by linarith
  also have "(e - 1 / 100000 < sqrt d) = ((e - 1 / 100000) * (e - 1 / 100000) < sqrt d * sqrt d)"
    by (rule sq_less_iff [OF lo sd])
  also have "(sqrt d < e + 1 / 100000) = (sqrt d * sqrt d < (e + 1 / 100000) * (e + 1 / 100000))"
    by (rule sq_less_iff [OF sd hi])
  finally show ?thesis by (simp only: sq)
qed

lemma qclose_iff:
  assumes n: "0 < n" and e: "qpos n (qsub e qeps)"
  shows "isClose (vdist (map (ev n) p) (map (ev n) q)) (ev n e) = qclose n (qdist2 n p q) e"
proof -
  have e': "1 / 100000 < ev n e"
    using e by (simp add: qpos_iff [OF n] ev_qsub ev_qeps)
  show ?thesis
    unfolding vdist_def vlen_def
    by (simp only: isClose_sqrt [OF vdot_self_nonneg e'] qclose_def qpos_iff [OF n]
          ev_qsub ev_qmul ev_qadd ev_qeps ev_qdist2 diff_gt_0_iff_gt)
qed

lemma distLines_Q:
  assumes n: "0 < n" and e: "qpos n (qsub e qeps)"
  shows "distLines (map (map (ev n)) pts) (ev n e) = distLinesQ n pts e"
  unfolding distLines_def distLinesQ_def
  by (auto intro!: arg_cong [where f = concat] map_cong simp: qclose_iff [OF n e])


section \<open>Properties\<close>

lemma loop2_m1_3: "loop2 (-1) 3 = [-1, 1]"
  by (simp add: loop2.simps)

lemma loop2_m1_2: "loop2 (-1) 2 = [-1, 1]"
  by (simp add: loop2.simps)

subsection \<open>The cube\<close>

text \<open>The value getCubePtsLinesFaces returns.\<close>

definition cubePtsVal :: "int list list" where
  "cubePtsVal =
     [[- 1, - 1, - 1], [- 1, - 1, 1], [- 1, 1, - 1], [- 1, 1, 1],
      [1, - 1, - 1], [1, - 1, 1], [1, 1, - 1], [1, 1, 1]]"

definition cubeLinesVal :: "edge list" where
  "cubeLinesVal =
     [\<lparr>line_from = Some 0, line_to = 1\<rparr>, \<lparr>line_from = Some 0, line_to = 2\<rparr>,
      \<lparr>line_from = Some 1, line_to = 3\<rparr>, \<lparr>line_from = Some 2, line_to = 3\<rparr>,
      \<lparr>line_from = Some 0, line_to = 4\<rparr>, \<lparr>line_from = Some 1, line_to = 5\<rparr>,
      \<lparr>line_from = Some 4, line_to = 5\<rparr>, \<lparr>line_from = Some 2, line_to = 6\<rparr>,
      \<lparr>line_from = Some 4, line_to = 6\<rparr>, \<lparr>line_from = Some 3, line_to = 7\<rparr>,
      \<lparr>line_from = Some 5, line_to = 7\<rparr>, \<lparr>line_from = Some 6, line_to = 7\<rparr>]"

definition cubeFacesVal :: "int list list" where
  "cubeFacesVal =
     [[0, 1, 2, 3], [0, 1, 4, 5], [0, 2, 4, 6], [1, 3, 5, 7], [2, 3, 6, 7], [4, 5, 6, 7]]"

lemma cube_val: "getCubePtsLinesFaces = (cubePtsVal, cubeLinesVal, cubeFacesVal)"
  by code_simp

lemma upt_0_3: "[0..<3] = [0, 1, 2]"
  by (simp add: upt_rec)

text \<open>
  C3: getCubePtsLinesFaces returns 8 points, all in \<open>{-1, 1}^3\<close> and every sign
  combination once; 12 edges, the two points of each differing in exactly one coordinate;
  and 6 faces of 4 indices each, whose points share the value of one coordinate.
\<close>

theorem cube_scenario:
  assumes "getCubePtsLinesFaces = (pts, lines, faces)"
  shows "length pts = 8 \<and> distinct pts \<and>
     (\<forall>p \<in> set pts. length p = 3 \<and> set p \<subseteq> {- 1, 1}) \<and>
     (\<forall>x \<in> {- 1, 1}. \<forall>y \<in> {- 1, 1}. \<forall>z \<in> {- 1, 1}. [x, y, z] \<in> set pts) \<and>
     length lines = 12 \<and>
     (\<forall>e \<in> set lines. \<exists>i. line_from e = Some i \<and> 0 \<le> i \<and> i < 8 \<and>
         0 \<le> line_to e \<and> line_to e < 8 \<and>
         length (filter (\<lambda>k. pts ! nat i ! k \<noteq> pts ! nat (line_to e) ! k) [0..<3]) = 1) \<and>
     length faces = 6 \<and>
     (\<forall>f \<in> set faces. length f = 4 \<and> distinct f \<and>
         (\<exists>axis \<in> {0, 1, 2}. \<exists>v \<in> {- 1, 1}.
             \<forall>k \<in> set f. 0 \<le> k \<and> k < 8 \<and> pts ! nat k ! axis = v))"
proof -
  have p: "pts = cubePtsVal" and l: "lines = cubeLinesVal" and f: "faces = cubeFacesVal"
    using assms by (simp_all add: cube_val)
  have 1: "length pts = 8 \<and> distinct pts \<and>
     (\<forall>p \<in> set pts. length p = 3 \<and> set p \<subseteq> {- 1, 1}) \<and>
     (\<forall>x \<in> {- 1, 1}. \<forall>y \<in> {- 1, 1}. \<forall>z \<in> {- 1, 1}. [x, y, z] \<in> set pts)"
    by (simp add: p cubePtsVal_def)
  have 2: "length lines = 12 \<and>
     (\<forall>e \<in> set lines. \<exists>i. line_from e = Some i \<and> 0 \<le> i \<and> i < 8 \<and>
         0 \<le> line_to e \<and> line_to e < 8 \<and>
         length (filter (\<lambda>k. pts ! nat i ! k \<noteq> pts ! nat (line_to e) ! k) [0..<3]) = 1)"
    by (simp add: p l cubePtsVal_def cubeLinesVal_def upt_0_3)
  have 3: "length faces = 6 \<and>
     (\<forall>f \<in> set faces. length f = 4 \<and> distinct f \<and>
         (\<exists>axis \<in> {0, 1, 2}. \<exists>v \<in> {- 1, 1}.
             \<forall>k \<in> set f. 0 \<le> k \<and> k < 8 \<and> pts ! nat k ! axis = v))"
    by (simp add: p f cubePtsVal_def cubeFacesVal_def)
  from 1 2 3 show ?thesis by blast
qed

theorem cube_scenario_witness:
  "\<exists>pts lines faces. getCubePtsLinesFaces = (pts, lines, faces) \<and>
     length pts = 8 \<and> [1, - 1, 1] \<in> set pts \<and> length lines = 12 \<and> length faces = 6 \<and>
     \<lparr>line_from = Some 1, line_to = 5\<rparr> \<in> set lines \<and> [1, 3, 5, 7] \<in> set faces"
  using cube_scenario [OF cube_val]
  by (simp add: cube_val cubePtsVal_def cubeLinesVal_def cubeFacesVal_def)

subsection \<open>Evaluating the distance tests\<close>

lemma phi_ev: "phi = 1 / 2 + sqrt 5 / 2"
  by (simp add: phi_def add_divide_distrib)

lemma inv_phi_ev: "inverse phi = sqrt 5 / 2 - 1 / 2"
proof -
  have "phi * (sqrt 5 / 2 - 1 / 2) = 1"
    unfolding phi_ev by (simp add: algebra_simps)
  then show ?thesis
    by (simp add: inverse_unique)
qed

lemma qadd_pair: "qadd (a, b) (c, d) = (a + c, b + d)"
  by (simp add: qadd_def)

lemma qsub_pair: "qsub (a, b) (c, d) = (a - c, b - d)"
  by (simp add: qsub_def)

lemma qmul_pair: "qmul n (a, b) (c, d) = (a * c + of_nat n * b * d, a * d + b * c)"
  by (simp add: qmul_def)

lemma qpos_pair:
  "qpos n (a, b) =
     (if 0 \<le> a \<and> 0 \<le> b then 0 < a \<or> 0 < b
      else if 0 \<le> a then of_nat n * (b * b) < a * a
      else if 0 \<le> b then a * a < of_nat n * (b * b)
      else False)"
  by (simp add: qpos_def)

lemma qdist2_Nil: "qdist2 n [] q = (0, 0)"
  by (simp add: qdist2_def)

lemma qdist2_Cons:
  "qdist2 n (a # p) (b # q) = qadd (qmul n (qsub a b) (qsub a b)) (qdist2 n p q)"
  by (simp add: qdist2_def)

lemmas qeval = qadd_pair qsub_pair qmul_pair qpos_pair qdist2_Nil qdist2_Cons

text \<open>
  The points of the four solids as pairs, and the edges their distance tests select.
\<close>

definition dodecahedronQ :: "qn list list" where
  "dodecahedronQ =
     [[(- 1, 0), (- 1, 0), (- 1, 0)],
      [(- 1, 0), (- 1, 0), (1, 0)],
      [(- 1, 0), (1, 0), (- 1, 0)],
      [(- 1, 0), (1, 0), (1, 0)],
      [(1, 0), (- 1, 0), (- 1, 0)],
      [(1, 0), (- 1, 0), (1, 0)],
      [(1, 0), (1, 0), (- 1, 0)],
      [(1, 0), (1, 0), (1, 0)],
      [(0, 0), (- 1 / 2, - 1 / 2), (1 / 2, - 1 / 2)],
      [(1 / 2, - 1 / 2), (0, 0), (- 1 / 2, - 1 / 2)],
      [(- 1 / 2, - 1 / 2), (1 / 2, - 1 / 2), (0, 0)],
      [(0, 0), (- 1 / 2, - 1 / 2), (- 1 / 2, 1 / 2)],
      [(1 / 2, - 1 / 2), (0, 0), (1 / 2, 1 / 2)],
      [(- 1 / 2, - 1 / 2), (- 1 / 2, 1 / 2), (0, 0)],
      [(0, 0), (1 / 2, 1 / 2), (1 / 2, - 1 / 2)],
      [(- 1 / 2, 1 / 2), (0, 0), (- 1 / 2, - 1 / 2)],
      [(1 / 2, 1 / 2), (1 / 2, - 1 / 2), (0, 0)],
      [(0, 0), (1 / 2, 1 / 2), (- 1 / 2, 1 / 2)],
      [(- 1 / 2, 1 / 2), (0, 0), (1 / 2, 1 / 2)],
      [(1 / 2, 1 / 2), (- 1 / 2, 1 / 2), (0, 0)]]"

definition dodecahedronLinesVal :: "edge list" where
  "dodecahedronLinesVal =
     [\<lparr>line_from = Some 0, line_to = 8\<rparr>, \<lparr>line_from = Some 0, line_to = 9\<rparr>,
      \<lparr>line_from = Some 0, line_to = 10\<rparr>, \<lparr>line_from = Some 1, line_to = 10\<rparr>,
      \<lparr>line_from = Some 1, line_to = 11\<rparr>, \<lparr>line_from = Some 1, line_to = 12\<rparr>,
      \<lparr>line_from = Some 2, line_to = 9\<rparr>, \<lparr>line_from = Some 2, line_to = 13\<rparr>,
      \<lparr>line_from = Some 2, line_to = 14\<rparr>, \<lparr>line_from = Some 3, line_to = 12\<rparr>,
      \<lparr>line_from = Some 3, line_to = 13\<rparr>, \<lparr>line_from = Some 3, line_to = 17\<rparr>,
      \<lparr>line_from = Some 4, line_to = 8\<rparr>, \<lparr>line_from = Some 4, line_to = 15\<rparr>,
      \<lparr>line_from = Some 4, line_to = 16\<rparr>, \<lparr>line_from = Some 5, line_to = 11\<rparr>,
      \<lparr>line_from = Some 5, line_to = 16\<rparr>, \<lparr>line_from = Some 5, line_to = 18\<rparr>,
      \<lparr>line_from = Some 6, line_to = 14\<rparr>, \<lparr>line_from = Some 6, line_to = 15\<rparr>,
      \<lparr>line_from = Some 6, line_to = 19\<rparr>, \<lparr>line_from = Some 7, line_to = 17\<rparr>,
      \<lparr>line_from = Some 7, line_to = 18\<rparr>, \<lparr>line_from = Some 7, line_to = 19\<rparr>,
      \<lparr>line_from = Some 8, line_to = 11\<rparr>, \<lparr>line_from = Some 9, line_to = 15\<rparr>,
      \<lparr>line_from = Some 10, line_to = 13\<rparr>, \<lparr>line_from = Some 12, line_to = 18\<rparr>,
      \<lparr>line_from = Some 14, line_to = 17\<rparr>, \<lparr>line_from = Some 16, line_to = 19\<rparr>]"

definition icosahedronQ :: "qn list list" where
  "icosahedronQ =
     [[(- 1, 0), (- 1 / 2, - 1 / 2), (0, 0)],
      [(- 1, 0), (1 / 2, 1 / 2), (0, 0)],
      [(1, 0), (- 1 / 2, - 1 / 2), (0, 0)],
      [(1, 0), (1 / 2, 1 / 2), (0, 0)],
      [(0, 0), (- 1, 0), (- 1 / 2, - 1 / 2)],
      [(0, 0), (- 1, 0), (1 / 2, 1 / 2)],
      [(0, 0), (1, 0), (- 1 / 2, - 1 / 2)],
      [(0, 0), (1, 0), (1 / 2, 1 / 2)],
      [(- 1 / 2, - 1 / 2), (0, 0), (- 1, 0)],
      [(1 / 2, 1 / 2), (0, 0), (- 1, 0)],
      [(- 1 / 2, - 1 / 2), (0, 0), (1, 0)],
      [(1 / 2, 1 / 2), (0, 0), (1, 0)]]"

definition icosahedronLinesVal :: "edge list" where
  "icosahedronLinesVal =
     [\<lparr>line_from = Some 0, line_to = 2\<rparr>, \<lparr>line_from = Some 0, line_to = 4\<rparr>,
      \<lparr>line_from = Some 0, line_to = 5\<rparr>, \<lparr>line_from = Some 0, line_to = 8\<rparr>,
      \<lparr>line_from = Some 0, line_to = 10\<rparr>, \<lparr>line_from = Some 1, line_to = 3\<rparr>,
      \<lparr>line_from = Some 1, line_to = 6\<rparr>, \<lparr>line_from = Some 1, line_to = 7\<rparr>,
      \<lparr>line_from = Some 1, line_to = 8\<rparr>, \<lparr>line_from = Some 1, line_to = 10\<rparr>,
      \<lparr>line_from = Some 2, line_to = 4\<rparr>, \<lparr>line_from = Some 2, line_to = 5\<rparr>,
      \<lparr>line_from = Some 2, line_to = 9\<rparr>, \<lparr>line_from = Some 2, line_to = 11\<rparr>,
      \<lparr>line_from = Some 3, line_to = 6\<rparr>, \<lparr>line_from = Some 3, line_to = 7\<rparr>,
      \<lparr>line_from = Some 3, line_to = 9\<rparr>, \<lparr>line_from = Some 3, line_to = 11\<rparr>,
      \<lparr>line_from = Some 4, line_to = 6\<rparr>, \<lparr>line_from = Some 4, line_to = 8\<rparr>,
      \<lparr>line_from = Some 4, line_to = 9\<rparr>, \<lparr>line_from = Some 5, line_to = 7\<rparr>,
      \<lparr>line_from = Some 5, line_to = 10\<rparr>, \<lparr>line_from = Some 5, line_to = 11\<rparr>,
      \<lparr>line_from = Some 6, line_to = 8\<rparr>, \<lparr>line_from = Some 6, line_to = 9\<rparr>,
      \<lparr>line_from = Some 7, line_to = 10\<rparr>, \<lparr>line_from = Some 7, line_to = 11\<rparr>,
      \<lparr>line_from = Some 8, line_to = 10\<rparr>, \<lparr>line_from = Some 9, line_to = 11\<rparr>]"

definition cuboctahedronQ :: "qn list list" where
  "cuboctahedronQ =
     [[(- 1, 0), (- 1, 0), (0, 0)],
      [(- 1, 0), (1, 0), (0, 0)],
      [(1, 0), (- 1, 0), (0, 0)],
      [(1, 0), (1, 0), (0, 0)],
      [(0, 0), (- 1, 0), (- 1, 0)],
      [(0, 0), (- 1, 0), (1, 0)],
      [(0, 0), (1, 0), (- 1, 0)],
      [(0, 0), (1, 0), (1, 0)],
      [(- 1, 0), (0, 0), (- 1, 0)],
      [(1, 0), (0, 0), (- 1, 0)],
      [(- 1, 0), (0, 0), (1, 0)],
      [(1, 0), (0, 0), (1, 0)]]"

definition cuboctahedronLinesVal :: "edge list" where
  "cuboctahedronLinesVal =
     [\<lparr>line_from = Some 0, line_to = 4\<rparr>, \<lparr>line_from = Some 0, line_to = 5\<rparr>,
      \<lparr>line_from = Some 0, line_to = 8\<rparr>, \<lparr>line_from = Some 0, line_to = 10\<rparr>,
      \<lparr>line_from = Some 1, line_to = 6\<rparr>, \<lparr>line_from = Some 1, line_to = 7\<rparr>,
      \<lparr>line_from = Some 1, line_to = 8\<rparr>, \<lparr>line_from = Some 1, line_to = 10\<rparr>,
      \<lparr>line_from = Some 2, line_to = 4\<rparr>, \<lparr>line_from = Some 2, line_to = 5\<rparr>,
      \<lparr>line_from = Some 2, line_to = 9\<rparr>, \<lparr>line_from = Some 2, line_to = 11\<rparr>,
      \<lparr>line_from = Some 3, line_to = 6\<rparr>, \<lparr>line_from = Some 3, line_to = 7\<rparr>,
      \<lparr>line_from = Some 3, line_to = 9\<rparr>, \<lparr>line_from = Some 3, line_to = 11\<rparr>,
      \<lparr>line_from = Some 4, line_to = 8\<rparr>, \<lparr>line_from = Some 4, line_to = 9\<rparr>,
      \<lparr>line_from = Some 5, line_to = 10\<rparr>, \<lparr>line_from = Some 5, line_to = 11\<rparr>,
      \<lparr>line_from = Some 6, line_to = 8\<rparr>, \<lparr>line_from = Some 6, line_to = 9\<rparr>,
      \<lparr>line_from = Some 7, line_to = 10\<rparr>, \<lparr>line_from = Some 7, line_to = 11\<rparr>]"

definition icosidodecahedronQ :: "qn list list" where
  "icosidodecahedronQ =
     [[(- 1 / 2, - 1 / 2), (0, 0), (0, 0)],
      [(1 / 2, 1 / 2), (0, 0), (0, 0)],
      [(0, 0), (- 1 / 2, - 1 / 2), (0, 0)],
      [(0, 0), (1 / 2, 1 / 2), (0, 0)],
      [(0, 0), (0, 0), (- 1 / 2, - 1 / 2)],
      [(0, 0), (0, 0), (1 / 2, 1 / 2)],
      [(- 1 / 2, 0), (- 1 / 4, - 1 / 4), (- 3 / 4, - 1 / 4)],
      [(- 1 / 2, 0), (- 1 / 4, - 1 / 4), (3 / 4, 1 / 4)],
      [(- 1 / 2, 0), (1 / 4, 1 / 4), (- 3 / 4, - 1 / 4)],
      [(- 1 / 2, 0), (1 / 4, 1 / 4), (3 / 4, 1 / 4)],
      [(1 / 2, 0), (- 1 / 4, - 1 / 4), (- 3 / 4, - 1 / 4)],
      [(1 / 2, 0), (- 1 / 4, - 1 / 4), (3 / 4, 1 / 4)],
      [(1 / 2, 0), (1 / 4, 1 / 4), (- 3 / 4, - 1 / 4)],
      [(1 / 2, 0), (1 / 4, 1 / 4), (3 / 4, 1 / 4)],
      [(- 3 / 4, - 1 / 4), (- 1 / 2, 0), (- 1 / 4, - 1 / 4)],
      [(3 / 4, 1 / 4), (- 1 / 2, 0), (- 1 / 4, - 1 / 4)],
      [(- 3 / 4, - 1 / 4), (- 1 / 2, 0), (1 / 4, 1 / 4)],
      [(3 / 4, 1 / 4), (- 1 / 2, 0), (1 / 4, 1 / 4)],
      [(- 3 / 4, - 1 / 4), (1 / 2, 0), (- 1 / 4, - 1 / 4)],
      [(3 / 4, 1 / 4), (1 / 2, 0), (- 1 / 4, - 1 / 4)],
      [(- 3 / 4, - 1 / 4), (1 / 2, 0), (1 / 4, 1 / 4)],
      [(3 / 4, 1 / 4), (1 / 2, 0), (1 / 4, 1 / 4)],
      [(- 1 / 4, - 1 / 4), (- 3 / 4, - 1 / 4), (- 1 / 2, 0)],
      [(- 1 / 4, - 1 / 4), (3 / 4, 1 / 4), (- 1 / 2, 0)],
      [(1 / 4, 1 / 4), (- 3 / 4, - 1 / 4), (- 1 / 2, 0)],
      [(1 / 4, 1 / 4), (3 / 4, 1 / 4), (- 1 / 2, 0)],
      [(- 1 / 4, - 1 / 4), (- 3 / 4, - 1 / 4), (1 / 2, 0)],
      [(- 1 / 4, - 1 / 4), (3 / 4, 1 / 4), (1 / 2, 0)],
      [(1 / 4, 1 / 4), (- 3 / 4, - 1 / 4), (1 / 2, 0)],
      [(1 / 4, 1 / 4), (3 / 4, 1 / 4), (1 / 2, 0)]]"

definition icosidodecahedronLinesVal :: "edge list" where
  "icosidodecahedronLinesVal =
     [\<lparr>line_from = Some 0, line_to = 14\<rparr>, \<lparr>line_from = Some 0, line_to = 16\<rparr>,
      \<lparr>line_from = Some 0, line_to = 18\<rparr>, \<lparr>line_from = Some 0, line_to = 20\<rparr>,
      \<lparr>line_from = Some 1, line_to = 15\<rparr>, \<lparr>line_from = Some 1, line_to = 17\<rparr>,
      \<lparr>line_from = Some 1, line_to = 19\<rparr>, \<lparr>line_from = Some 1, line_to = 21\<rparr>,
      \<lparr>line_from = Some 2, line_to = 22\<rparr>, \<lparr>line_from = Some 2, line_to = 24\<rparr>,
      \<lparr>line_from = Some 2, line_to = 26\<rparr>, \<lparr>line_from = Some 2, line_to = 28\<rparr>,
      \<lparr>line_from = Some 3, line_to = 23\<rparr>, \<lparr>line_from = Some 3, line_to = 25\<rparr>,
      \<lparr>line_from = Some 3, line_to = 27\<rparr>, \<lparr>line_from = Some 3, line_to = 29\<rparr>,
      \<lparr>line_from = Some 4, line_to = 6\<rparr>, \<lparr>line_from = Some 4, line_to = 8\<rparr>,
      \<lparr>line_from = Some 4, line_to = 10\<rparr>, \<lparr>line_from = Some 4, line_to = 12\<rparr>,
      \<lparr>line_from = Some 5, line_to = 7\<rparr>, \<lparr>line_from = Some 5, line_to = 9\<rparr>,
      \<lparr>line_from = Some 5, line_to = 11\<rparr>, \<lparr>line_from = Some 5, line_to = 13\<rparr>,
      \<lparr>line_from = Some 6, line_to = 10\<rparr>, \<lparr>line_from = Some 6, line_to = 14\<rparr>,
      \<lparr>line_from = Some 6, line_to = 22\<rparr>, \<lparr>line_from = Some 7, line_to = 11\<rparr>,
      \<lparr>line_from = Some 7, line_to = 16\<rparr>, \<lparr>line_from = Some 7, line_to = 26\<rparr>,
      \<lparr>line_from = Some 8, line_to = 12\<rparr>, \<lparr>line_from = Some 8, line_to = 18\<rparr>,
      \<lparr>line_from = Some 8, line_to = 23\<rparr>, \<lparr>line_from = Some 9, line_to = 13\<rparr>,
      \<lparr>line_from = Some 9, line_to = 20\<rparr>, \<lparr>line_from = Some 9, line_to = 27\<rparr>,
      \<lparr>line_from = Some 10, line_to = 15\<rparr>, \<lparr>line_from = Some 10, line_to = 24\<rparr>,
      \<lparr>line_from = Some 11, line_to = 17\<rparr>, \<lparr>line_from = Some 11, line_to = 28\<rparr>,
      \<lparr>line_from = Some 12, line_to = 19\<rparr>, \<lparr>line_from = Some 12, line_to = 25\<rparr>,
      \<lparr>line_from = Some 13, line_to = 21\<rparr>, \<lparr>line_from = Some 13, line_to = 29\<rparr>,
      \<lparr>line_from = Some 14, line_to = 18\<rparr>, \<lparr>line_from = Some 14, line_to = 22\<rparr>,
      \<lparr>line_from = Some 15, line_to = 19\<rparr>, \<lparr>line_from = Some 15, line_to = 24\<rparr>,
      \<lparr>line_from = Some 16, line_to = 20\<rparr>, \<lparr>line_from = Some 16, line_to = 26\<rparr>,
      \<lparr>line_from = Some 17, line_to = 21\<rparr>, \<lparr>line_from = Some 17, line_to = 28\<rparr>,
      \<lparr>line_from = Some 18, line_to = 23\<rparr>, \<lparr>line_from = Some 19, line_to = 25\<rparr>,
      \<lparr>line_from = Some 20, line_to = 27\<rparr>, \<lparr>line_from = Some 21, line_to = 29\<rparr>,
      \<lparr>line_from = Some 22, line_to = 26\<rparr>, \<lparr>line_from = Some 23, line_to = 27\<rparr>,
      \<lparr>line_from = Some 24, line_to = 28\<rparr>, \<lparr>line_from = Some 25, line_to = 29\<rparr>]"

lemma dodecahedronPts_Q: "dodecahedronPts = map (map (ev 5)) dodecahedronQ"
  by (simp add: dodecahedronPts_def dodecahedronQ_def loop2_m1_2 upt_0_3 ev_def of_rat_divide of_rat_minus
       divide_inverse [of _ phi] inv_phi_ev) (simp add: phi_ev algebra_simps)?

lemma dodecahedron_edgeLen: "2 / phi = ev 5 (- 1, 1)"
  by (simp add: ev_def divide_inverse [of _ phi] inv_phi_ev)

lemma dodecahedron_qclose:
  "qclose 5 d (- 1, 1) = (qpos 5 (qsub d ((60000200001 / 10000000000, - 100001 / 50000))) \<and> qpos 5 (qsub ((59999800001 / 10000000000, - 99999 / 50000)) d))"
  by (simp add: qclose_def qeps_def qeval)

lemma dodecahedronLinesQ: "distLinesQ 5 dodecahedronQ (- 1, 1) = dodecahedronLinesVal"
  by (simp add: distLinesQ_def dodecahedron_qclose qeval dodecahedronQ_def dodecahedronLinesVal_def)

lemma dodecahedronLines: "distLines dodecahedronPts (2 / phi) = dodecahedronLinesVal"
proof -
  have e: "qpos 5 (qsub (- 1, 1) qeps)"
    by (simp add: qeps_def qeval)
  show ?thesis
    unfolding dodecahedronPts_Q dodecahedron_edgeLen
    by (simp only: distLines_Q [OF _ e] dodecahedronLinesQ zero_less_numeral)
qed

lemma dodecahedronPts_length: "length dodecahedronPts = 20"
  by (simp add: dodecahedronPts_Q dodecahedronQ_def)

lemma getDodecahedron_lines:
  "fst (snd getDodecahedronPtsLinesFaces) = distLines (fst getDodecahedronPtsLinesFaces) (2 / phi)"
  by (simp add: getDodecahedronPtsLinesFaces_def Let_def)

lemma icosahedronPts_Q: "icosahedronPts = map (map (ev 5)) icosahedronQ"
  by (simp add: icosahedronPts_def icosahedronQ_def loop2_m1_2 upt_0_3 ev_def of_rat_divide of_rat_minus
       divide_inverse [of _ phi] inv_phi_ev) (simp add: phi_ev algebra_simps)?

lemma icosahedron_edgeLen: "2 = ev 5 (2, 0)"
  by (simp add: ev_def)

lemma icosahedron_qclose:
  "qclose 5 d (2, 0) = (qpos 5 (qsub d ((39999600001 / 10000000000, 0))) \<and> qpos 5 (qsub ((40000400001 / 10000000000, 0)) d))"
  by (simp add: qclose_def qeps_def qeval)

lemma icosahedronLinesQ: "distLinesQ 5 icosahedronQ (2, 0) = icosahedronLinesVal"
  by (simp add: distLinesQ_def icosahedron_qclose qeval icosahedronQ_def icosahedronLinesVal_def)

lemma icosahedronLines: "distLines icosahedronPts (2) = icosahedronLinesVal"
proof -
  have e: "qpos 5 (qsub (2, 0) qeps)"
    by (simp add: qeps_def qeval)
  show ?thesis
    unfolding icosahedronPts_Q icosahedron_edgeLen
    by (simp only: distLines_Q [OF _ e] icosahedronLinesQ zero_less_numeral)
qed

lemma icosahedronPts_length: "length icosahedronPts = 12"
  by (simp add: icosahedronPts_Q icosahedronQ_def)

lemma getIcosahedron_lines:
  "fst (snd getIcosahedronPtsLinesFaces) = distLines (fst getIcosahedronPtsLinesFaces) (2)"
  by (simp add: getIcosahedronPtsLinesFaces_def Let_def)

lemma cuboctahedronPts_Q: "cuboctahedronPts = map (map (ev 2)) cuboctahedronQ"
  by (simp add: cuboctahedronPts_def cuboctahedronQ_def loop2_m1_2 upt_0_3 ev_def of_rat_divide of_rat_minus
       divide_inverse [of _ phi] inv_phi_ev) (simp add: phi_ev algebra_simps)?

lemma cuboctahedron_edgeLen: "sqrt 2 = ev 2 (0, 1)"
  by (simp add: ev_def)

lemma cuboctahedron_qclose:
  "qclose 2 d (0, 1) = (qpos 2 (qsub d ((20000000001 / 10000000000, - 1 / 50000))) \<and> qpos 2 (qsub ((20000000001 / 10000000000, 1 / 50000)) d))"
  by (simp add: qclose_def qeps_def qeval)

lemma cuboctahedronLinesQ: "distLinesQ 2 cuboctahedronQ (0, 1) = cuboctahedronLinesVal"
  by (simp add: distLinesQ_def cuboctahedron_qclose qeval cuboctahedronQ_def cuboctahedronLinesVal_def)

lemma cuboctahedronLines: "distLines cuboctahedronPts (sqrt 2) = cuboctahedronLinesVal"
proof -
  have e: "qpos 2 (qsub (0, 1) qeps)"
    by (simp add: qeps_def qeval)
  show ?thesis
    unfolding cuboctahedronPts_Q cuboctahedron_edgeLen
    by (simp only: distLines_Q [OF _ e] cuboctahedronLinesQ zero_less_numeral)
qed

lemma cuboctahedronPts_length: "length cuboctahedronPts = 12"
  by (simp add: cuboctahedronPts_Q cuboctahedronQ_def)

lemma getCuboctahedron_lines:
  "fst (snd getCuboctahedronPtsLinesFaces) = distLines (fst getCuboctahedronPtsLinesFaces) (sqrt 2)"
  by (simp add: getCuboctahedronPtsLinesFaces_def Let_def)

lemma icosidodecahedronPts_Q: "icosidodecahedronPts = map (map (ev 5)) icosidodecahedronQ"
  by (simp add: icosidodecahedronPts_def icosidodecahedronQ_def loop2_m1_2 upt_0_3 ev_def of_rat_divide of_rat_minus
       divide_inverse [of _ phi] inv_phi_ev) (simp add: phi_ev algebra_simps)?

lemma icosidodecahedron_edgeLen: "1 = ev 5 (1, 0)"
  by (simp add: ev_def)

lemma icosidodecahedron_qclose:
  "qclose 5 d (1, 0) = (qpos 5 (qsub d ((9999800001 / 10000000000, 0))) \<and> qpos 5 (qsub ((10000200001 / 10000000000, 0)) d))"
  by (simp add: qclose_def qeps_def qeval)

lemma icosidodecahedronLinesQ: "distLinesQ 5 icosidodecahedronQ (1, 0) = icosidodecahedronLinesVal"
  by (simp add: distLinesQ_def icosidodecahedron_qclose qeval icosidodecahedronQ_def icosidodecahedronLinesVal_def)

lemma icosidodecahedronLines: "distLines icosidodecahedronPts (1) = icosidodecahedronLinesVal"
proof -
  have e: "qpos 5 (qsub (1, 0) qeps)"
    by (simp add: qeps_def qeval)
  show ?thesis
    unfolding icosidodecahedronPts_Q icosidodecahedron_edgeLen
    by (simp only: distLines_Q [OF _ e] icosidodecahedronLinesQ zero_less_numeral)
qed

lemma icosidodecahedronPts_length: "length icosidodecahedronPts = 30"
  by (simp add: icosidodecahedronPts_Q icosidodecahedronQ_def)

lemma getIcosidodecahedron_lines:
  "fst (snd getIcosidodecahedronPtsLinesFaces) = distLines (fst getIcosidodecahedronPtsLinesFaces) (1)"
  by (simp add: getIcosidodecahedronPtsLinesFaces_def Let_def)

subsection \<open>The loops over pairs and triples\<close>

text \<open>The triple loop of \<open>triFaces\<close> over an arbitrary adjacency test.\<close>

definition triFacesBy :: "(nat \<Rightarrow> nat \<Rightarrow> bool) \<Rightarrow> nat \<Rightarrow> int list list" where
  "triFacesBy adj n =
     concat (map (\<lambda>i. concat (map (\<lambda>j. concat (map (\<lambda>k.
         if adj i j \<and> adj i k \<and> adj j k then [[int i, int j, int k]] else [])
       [j + 1..<n])) [i + 1..<n - 1])) [0..<n - 2])"

lemma distLines_mem:
  "(e \<in> set (distLines pts el)) =
     (\<exists>i j. e = \<lparr>line_from = Some (int i), line_to = int j\<rparr> \<and> i < j \<and> j < length pts \<and>
        isClose (vdist (pts ! i) (pts ! j)) el)"
  unfolding distLines_def by (auto split: if_splits)

lemma distLines_edge:
  "(\<lparr>line_from = Some (int i), line_to = int j\<rparr> \<in> set (distLines pts el)) =
     (i < j \<and> j < length pts \<and> isClose (vdist (pts ! i) (pts ! j)) el)"
  by (auto simp: distLines_mem)

lemma triFaces_by_lines:
  "triFaces pts el =
     triFacesBy (\<lambda>i j. \<lparr>line_from = Some (int i), line_to = int j\<rparr> \<in> set (distLines pts el))
       (length pts)"
  unfolding triFaces_def triFacesBy_def
  by (auto intro!: arg_cong [where f = concat] map_cong simp: distLines_edge)

lemma icosahedron_triFaces: "length (triFaces icosahedronPts 2) = 20"
  unfolding triFaces_by_lines icosahedronLines icosahedronPts_length
  by code_simp

lemma icosidodecahedron_triFaces: "length (triFaces icosidodecahedronPts 1) = 20"
  unfolding triFaces_by_lines icosidodecahedronLines icosidodecahedronPts_length
  by code_simp

lemma dodecahedronFaces_length: "length (dodecahedronFaces pts) = 12"
  by (simp add: dodecahedronFaces_def loop2_m1_2 upt_0_3 Let_def)

lemma cuboctahedronFaces_length: "length (cuboctahedronFaces pts) = 14"
  by (simp add: cuboctahedronFaces_def loop2_m1_2 upt_0_3 Let_def)

lemma icosidodecahedronPentagons_length: "length (icosidodecahedronPentagons pts) = 12"
  by (simp add: icosidodecahedronPentagons_def loop2_m1_2 upt_0_3 Let_def)

definition tetrahedronLinesVal :: "edge list" where
  "tetrahedronLinesVal =
     [\<lparr>line_from = Some 0, line_to = 1\<rparr>, \<lparr>line_from = Some 0, line_to = 2\<rparr>,
      \<lparr>line_from = Some 0, line_to = 3\<rparr>, \<lparr>line_from = Some 1, line_to = 2\<rparr>,
      \<lparr>line_from = Some 1, line_to = 3\<rparr>, \<lparr>line_from = Some 2, line_to = 3\<rparr>]"

lemma tetrahedron_val:
  "getTetrahedronPtsLinesFaces =
     ([[- 1, 0, - (1 / sqrt 2)], [0, - 1, 1 / sqrt 2], [1, 0, - (1 / sqrt 2)], [0, 1, 1 / sqrt 2]],
      tetrahedronLinesVal,
      [[1, 2, 3], [0, 2, 3], [0, 1, 3], [0, 1, 2]])"
  by (simp add: getTetrahedronPtsLinesFaces_def tetrahedronLinesVal_def loop2_m1_2 upt_rec Let_def)

text \<open>
  C2: each generator returns the counts of vertices, edges and faces of its solid.
\<close>

theorem generator_counts:
  "(case getCubePtsLinesFaces of (pts, lines, faces) \<Rightarrow>
      (length pts, length lines, length faces)) = (8, 12, 6) \<and>
   (case getTetrahedronPtsLinesFaces of (pts, lines, faces) \<Rightarrow>
      (length pts, length lines, length faces)) = (4, 6, 4) \<and>
   (case getDodecahedronPtsLinesFaces of (pts, lines, faces) \<Rightarrow>
      (length pts, length lines, length faces)) = (20, 30, 12) \<and>
   (case getIcosahedronPtsLinesFaces of (pts, lines, faces) \<Rightarrow>
      (length pts, length lines, length faces)) = (12, 30, 20) \<and>
   (case getCuboctahedronPtsLinesFaces of (pts, lines, faces) \<Rightarrow>
      (length pts, length lines, length faces)) = (12, 24, 14) \<and>
   (case getIcosidodecahedronPtsLinesFaces of (pts, lines, faces) \<Rightarrow>
      (length pts, length lines, length faces)) = (30, 60, 32)"
proof -
  have cube: "(case getCubePtsLinesFaces of (pts, lines, faces) \<Rightarrow>
      (length pts, length lines, length faces)) = (8, 12, 6)"
    by (simp add: cube_val cubePtsVal_def cubeLinesVal_def cubeFacesVal_def)
  have tetra: "(case getTetrahedronPtsLinesFaces of (pts, lines, faces) \<Rightarrow>
      (length pts, length lines, length faces)) = (4, 6, 4)"
    by (simp add: tetrahedron_val tetrahedronLinesVal_def)
  have dodeca: "(case getDodecahedronPtsLinesFaces of (pts, lines, faces) \<Rightarrow>
      (length pts, length lines, length faces)) = (20, 30, 12)"
    by (simp add: getDodecahedronPtsLinesFaces_def Let_def dodecahedronLines
          dodecahedronPts_length dodecahedronFaces_length dodecahedronLinesVal_def)
  have icosa: "(case getIcosahedronPtsLinesFaces of (pts, lines, faces) \<Rightarrow>
      (length pts, length lines, length faces)) = (12, 30, 20)"
    by (simp add: getIcosahedronPtsLinesFaces_def Let_def icosahedronLines
          icosahedronPts_length icosahedron_triFaces icosahedronLinesVal_def)
  have cubocta: "(case getCuboctahedronPtsLinesFaces of (pts, lines, faces) \<Rightarrow>
      (length pts, length lines, length faces)) = (12, 24, 14)"
    by (simp add: getCuboctahedronPtsLinesFaces_def Let_def cuboctahedronLines
          cuboctahedronPts_length cuboctahedronFaces_length cuboctahedronLinesVal_def)
  have icosido: "(case getIcosidodecahedronPtsLinesFaces of (pts, lines, faces) \<Rightarrow>
      (length pts, length lines, length faces)) = (30, 60, 32)"
    by (simp add: getIcosidodecahedronPtsLinesFaces_def Let_def icosidodecahedronLines
          icosidodecahedronPts_length icosidodecahedron_triFaces
          icosidodecahedronPentagons_length icosidodecahedronLinesVal_def)
  from cube tetra dodeca icosa cubocta icosido show ?thesis by blast
qed

subsection \<open>Edges\<close>

lemma distinct_concat_map:
  assumes "distinct xs"
    and "\<And>x. x \<in> set xs \<Longrightarrow> distinct (f x)"
    and "\<And>x y. x \<in> set xs \<Longrightarrow> y \<in> set xs \<Longrightarrow> x \<noteq> y \<Longrightarrow> set (f x) \<inter> set (f y) = {}"
  shows "distinct (concat (map f xs))"
  using assms by (induction xs) auto

lemma distLines_unordered:
  "map (\<lambda>e. {line_from e, Some (line_to e)}) (distLines pts el) =
     concat (map (\<lambda>i. concat (map (\<lambda>j.
         if isClose (vdist (pts ! i) (pts ! j)) el then [{Some (int i), Some (int j)}] else [])
       [i + 1..<length pts])) [0..<length pts - 1])"
  unfolding distLines_def
  by (auto simp: map_concat comp_def intro!: arg_cong [where f = concat] map_cong)

lemma concat_map_if: "concat (map (\<lambda>j. if P j then [h j] else []) js) = map h (filter P js)"
  by (induction js) auto

lemma unordered_eq:
  assumes "i < j" "i' < j'" "{Some (int i), Some (int j)} = {Some (int i'), Some (int j')}"
  shows "i = i' \<and> j = j'"
  using assms by (auto simp: doubleton_eq_iff)

lemma distLines_distinct:
  "distinct (map (\<lambda>e. {line_from e, Some (line_to e)}) (distLines pts el))"
  unfolding distLines_unordered concat_map_if
proof (rule distinct_concat_map)
  show "distinct [0..<length pts - 1]" by simp
next
  fix i assume "i \<in> set [0..<length pts - 1]"
  have "inj_on (\<lambda>j. {Some (int i), Some (int j)}) {j. i < j}"
    by (rule inj_onI) (use unordered_eq in blast)
  then have "inj_on (\<lambda>j. {Some (int i), Some (int j)})
      (set (filter (\<lambda>j. isClose (vdist (pts ! i) (pts ! j)) el) [i + 1..<length pts]))"
    by (rule inj_on_subset) auto
  then show "distinct (map (\<lambda>j. {Some (int i), Some (int j)})
      (filter (\<lambda>j. isClose (vdist (pts ! i) (pts ! j)) el) [i + 1..<length pts]))"
    by (simp add: distinct_map)
next
  fix i i' :: nat assume "i \<noteq> i'"
  have "\<And>x. x \<in> set (map (\<lambda>j. {Some (int i), Some (int j)})
           (filter (\<lambda>j. isClose (vdist (pts ! i) (pts ! j)) el) [i + 1..<length pts])) \<Longrightarrow>
        x \<in> set (map (\<lambda>j. {Some (int i'), Some (int j)})
           (filter (\<lambda>j. isClose (vdist (pts ! i') (pts ! j)) el) [i' + 1..<length pts])) \<Longrightarrow> False"
  proof -
    fix x
    assume "x \<in> set (map (\<lambda>j. {Some (int i), Some (int j)})
           (filter (\<lambda>j. isClose (vdist (pts ! i) (pts ! j)) el) [i + 1..<length pts]))"
    then have "x \<in> (\<lambda>j. {Some (int i), Some (int j)}) ` {j. i < j}" by auto
    then obtain j where j: "i < j" "x = {Some (int i), Some (int j)}" by blast
    assume "x \<in> set (map (\<lambda>j. {Some (int i'), Some (int j)})
           (filter (\<lambda>j. isClose (vdist (pts ! i') (pts ! j)) el) [i' + 1..<length pts]))"
    then have "x \<in> (\<lambda>j. {Some (int i'), Some (int j)}) ` {j. i' < j}" by auto
    then obtain j' where j': "i' < j'" "x = {Some (int i'), Some (int j')}" by blast
    from unordered_eq [OF j(1) j'(1)] j(2) j'(2) \<open>i \<noteq> i'\<close> show False by simp
  qed
  then show "set (map (\<lambda>j. {Some (int i), Some (int j)})
           (filter (\<lambda>j. isClose (vdist (pts ! i) (pts ! j)) el) [i + 1..<length pts])) \<inter>
        set (map (\<lambda>j. {Some (int i'), Some (int j)})
           (filter (\<lambda>j. isClose (vdist (pts ! i') (pts ! j)) el) [i' + 1..<length pts])) = {}"
    by blast
qed

lemma distLines_valid:
  assumes "e \<in> set (distLines pts el)"
  shows "\<exists>i. line_from e = Some i \<and> 0 \<le> i \<and> i < line_to e \<and> line_to e < int (length pts)"
  using assms by (auto simp: distLines_mem)

text \<open>
  C1: in the four generators that match distances, the edge from \<open>i\<close> to \<open>j\<close> is in the
  list exactly when \<open>i < j\<close> are indices of points whose distance differs from the edge
  length of the solid by less than 1e-5; and the list holds nothing but such edges.
\<close>

theorem distance_matched_lines:
  assumes "(gen, edgeLen) \<in>
      {(getDodecahedronPtsLinesFaces, 2 / phi), (getIcosahedronPtsLinesFaces, 2),
       (getCuboctahedronPtsLinesFaces, sqrt 2), (getIcosidodecahedronPtsLinesFaces, 1)}"
    and "gen = (pts, lines, faces)"
  shows "(\<forall>i j. (\<lparr>line_from = Some (int i), line_to = int j\<rparr> \<in> set lines) =
            (i < j \<and> j < length pts \<and> \<bar>vdist (pts ! i) (pts ! j) - edgeLen\<bar> < 1 / 100000)) \<and>
         (\<forall>e \<in> set lines. \<exists>i j. e = \<lparr>line_from = Some (int i), line_to = int j\<rparr> \<and>
            i < j \<and> j < length pts \<and> isClose (vdist (pts ! i) (pts ! j)) edgeLen)"
proof -
  have "lines = fst (snd gen)" and "pts = fst gen"
    using assms(2) by simp_all
  moreover have "fst (snd gen) = distLines (fst gen) edgeLen"
    using assms(1) getDodecahedron_lines getIcosahedron_lines getCuboctahedron_lines
      getIcosidodecahedron_lines by auto
  ultimately have l: "lines = distLines pts edgeLen" by simp
  have 1: "\<forall>i j. (\<lparr>line_from = Some (int i), line_to = int j\<rparr> \<in> set lines) =
            (i < j \<and> j < length pts \<and> \<bar>vdist (pts ! i) (pts ! j) - edgeLen\<bar> < 1 / 100000)"
    unfolding l distLines_edge isClose_def by simp
  have 2: "\<forall>e \<in> set lines. \<exists>i j. e = \<lparr>line_from = Some (int i), line_to = int j\<rparr> \<and>
            i < j \<and> j < length pts \<and> isClose (vdist (pts ! i) (pts ! j)) edgeLen"
    unfolding l using distLines_mem [of _ pts edgeLen] by blast
  from 1 2 show ?thesis by simp
qed

theorem distance_matched_lines_witness:
  "\<lparr>line_from = Some 0, line_to = 8\<rparr> \<in> set (fst (snd getDodecahedronPtsLinesFaces)) \<and>
   \<bar>vdist (fst getDodecahedronPtsLinesFaces ! 0) (fst getDodecahedronPtsLinesFaces ! 8) - 2 / phi\<bar>
     < 1 / 100000 \<and>
   \<lparr>line_from = Some 0, line_to = 1\<rparr> \<notin> set (fst (snd getDodecahedronPtsLinesFaces)) \<and>
   \<not> \<bar>vdist (fst getDodecahedronPtsLinesFaces ! 0) (fst getDodecahedronPtsLinesFaces ! 1) - 2 / phi\<bar>
     < 1 / 100000"
proof -
  have m: "(getDodecahedronPtsLinesFaces, 2 / phi) \<in>
      {(getDodecahedronPtsLinesFaces, 2 / phi), (getIcosahedronPtsLinesFaces, 2),
       (getCuboctahedronPtsLinesFaces, sqrt 2), (getIcosidodecahedronPtsLinesFaces, 1)}"
    by simp
  have g: "getDodecahedronPtsLinesFaces =
      (fst getDodecahedronPtsLinesFaces, fst (snd getDodecahedronPtsLinesFaces),
       snd (snd getDodecahedronPtsLinesFaces))"
    by simp
  have l: "fst (snd getDodecahedronPtsLinesFaces) = dodecahedronLinesVal"
    by (simp add: getDodecahedronPtsLinesFaces_def Let_def dodecahedronLines)
  have n: "length (fst getDodecahedronPtsLinesFaces) = 20"
    by (simp add: getDodecahedronPtsLinesFaces_def Let_def dodecahedronPts_length)
  have 1: "\<lparr>line_from = Some (int 0), line_to = int 8\<rparr> \<in> set (fst (snd getDodecahedronPtsLinesFaces))"
    and 2: "\<lparr>line_from = Some (int 0), line_to = int 1\<rparr> \<notin> set (fst (snd getDodecahedronPtsLinesFaces))"
    unfolding l by (simp_all add: dodecahedronLinesVal_def)
  from distance_matched_lines [OF m g] have
    *: "\<And>i j. (\<lparr>line_from = Some (int i), line_to = int j\<rparr> \<in> set (fst (snd getDodecahedronPtsLinesFaces))) =
            (i < j \<and> j < length (fst getDodecahedronPtsLinesFaces) \<and>
             \<bar>vdist (fst getDodecahedronPtsLinesFaces ! i) (fst getDodecahedronPtsLinesFaces ! j) - 2 / phi\<bar>
               < 1 / 100000)"
    by blast
  from 1 have a: "\<bar>vdist (fst getDodecahedronPtsLinesFaces ! 0) (fst getDodecahedronPtsLinesFaces ! 8) - 2 / phi\<bar>
     < 1 / 100000"
    unfolding * by simp
  from 2 have b: "\<not> \<bar>vdist (fst getDodecahedronPtsLinesFaces ! 0) (fst getDodecahedronPtsLinesFaces ! 1) - 2 / phi\<bar>
     < 1 / 100000"
    unfolding * n by simp
  from 1 2 a b show ?thesis by simp
qed

lemma cubeLines_ok:
  "(\<forall>e \<in> set cubeLinesVal. \<exists>i. line_from e = Some i \<and> 0 \<le> i \<and> i < line_to e \<and>
      line_to e < 8) \<and>
   distinct (map (\<lambda>e. {line_from e, Some (line_to e)}) cubeLinesVal)"
  by (simp add: cubeLinesVal_def doubleton_eq_iff)

lemma tetrahedronLines_ok:
  "(\<forall>e \<in> set tetrahedronLinesVal. \<exists>i. line_from e = Some i \<and> 0 \<le> i \<and> i < line_to e \<and>
      line_to e < 4) \<and>
   distinct (map (\<lambda>e. {line_from e, Some (line_to e)}) tetrahedronLinesVal)"
  by (simp add: tetrahedronLinesVal_def doubleton_eq_iff)

text \<open>
  C9: in each of the six generators every edge has \<open>from < to\<close>, both indices into the
  points, and no unordered pair of indices occurs twice.
\<close>

theorem edges_valid_and_distinct:
  assumes "(n, lines) \<in>
      {(length (fst getCubePtsLinesFaces), fst (snd getCubePtsLinesFaces)),
       (length (fst getTetrahedronPtsLinesFaces), fst (snd getTetrahedronPtsLinesFaces)),
       (length (fst getDodecahedronPtsLinesFaces), fst (snd getDodecahedronPtsLinesFaces)),
       (length (fst getIcosahedronPtsLinesFaces), fst (snd getIcosahedronPtsLinesFaces)),
       (length (fst getCuboctahedronPtsLinesFaces), fst (snd getCuboctahedronPtsLinesFaces)),
       (length (fst getIcosidodecahedronPtsLinesFaces),
        fst (snd getIcosidodecahedronPtsLinesFaces))}"
  shows "(\<forall>e \<in> set lines. \<exists>i. line_from e = Some i \<and> 0 \<le> i \<and> i < line_to e \<and>
            line_to e < int n) \<and>
         distinct (map (\<lambda>e. {line_from e, Some (line_to e)}) lines)"
proof -
  have c: "length (fst getCubePtsLinesFaces) = 8" "fst (snd getCubePtsLinesFaces) = cubeLinesVal"
    by (simp_all add: cube_val cubePtsVal_def)
  have t: "length (fst getTetrahedronPtsLinesFaces) = 4"
    "fst (snd getTetrahedronPtsLinesFaces) = tetrahedronLinesVal"
    by (simp_all add: tetrahedron_val)
  from assms consider
      (cube) "n = 8" "lines = cubeLinesVal"
    | (tetra) "n = 4" "lines = tetrahedronLinesVal"
    | (dist) pts el where "n = length pts" "lines = distLines pts el"
    unfolding c t getDodecahedron_lines getIcosahedron_lines getCuboctahedron_lines
      getIcosidodecahedron_lines
    by blast
  then show ?thesis
  proof cases
    case cube
    then show ?thesis using cubeLines_ok by simp
  next
    case tetra
    then show ?thesis using tetrahedronLines_ok by simp
  next
    case dist
    then show ?thesis using distLines_valid distLines_distinct by blast
  qed
qed

theorem edges_valid_and_distinct_witness:
  "\<lparr>line_from = Some 2, line_to = 6\<rparr> \<in> set (fst (snd getCubePtsLinesFaces)) \<and>
   (2::int) < 6 \<and> 6 < int (length (fst getCubePtsLinesFaces)) \<and>
   distinct (map (\<lambda>e. {line_from e, Some (line_to e)}) (fst (snd getCubePtsLinesFaces)))"
proof -
  have "(length (fst getCubePtsLinesFaces), fst (snd getCubePtsLinesFaces)) \<in>
      {(length (fst getCubePtsLinesFaces), fst (snd getCubePtsLinesFaces)),
       (length (fst getTetrahedronPtsLinesFaces), fst (snd getTetrahedronPtsLinesFaces)),
       (length (fst getDodecahedronPtsLinesFaces), fst (snd getDodecahedronPtsLinesFaces)),
       (length (fst getIcosahedronPtsLinesFaces), fst (snd getIcosahedronPtsLinesFaces)),
       (length (fst getCuboctahedronPtsLinesFaces), fst (snd getCuboctahedronPtsLinesFaces)),
       (length (fst getIcosidodecahedronPtsLinesFaces),
        fst (snd getIcosidodecahedronPtsLinesFaces))}"
    by simp
  from edges_valid_and_distinct [OF this]
  have "distinct (map (\<lambda>e. {line_from e, Some (line_to e)}) (fst (snd getCubePtsLinesFaces)))"
    by blast
  moreover have "\<lparr>line_from = Some 2, line_to = 6\<rparr> \<in> set (fst (snd getCubePtsLinesFaces)) \<and>
      6 < int (length (fst getCubePtsLinesFaces))"
    by (simp add: cube_val cubePtsVal_def cubeLinesVal_def)
  ultimately show ?thesis by simp
qed

subsection \<open>Rounding\<close>

text \<open>
  The exponent found by halving or doubling is the integer part of the binary logarithm,
  kept in the range of a double; powers of two are exact.
\<close>

lemma pow2_powr: "pow2 e = 2 powr (real_of_int e)"
  by (simp add: pow2_def powr_real_of_int inverse_eq_divide)

lemma pow2_pos: "0 < pow2 e"
  by (simp add: pow2_powr)

lemma pow2_mono: "e \<le> e' \<Longrightarrow> pow2 e \<le> pow2 e'"
  by (simp add: pow2_powr)

lemma pow2_add: "pow2 (e + e') = pow2 e * pow2 e'"
  by (simp add: pow2_powr powr_add)

lemma roundHalfEven_bounds: "\<lfloor>m\<rfloor> \<le> roundHalfEven m" "roundHalfEven m \<le> \<lfloor>m\<rfloor> + 1"
  by (simp_all add: roundHalfEven_def Let_def)

lemma roundHalfEven_int: "roundHalfEven (of_int k) = k"
  by (simp add: roundHalfEven_def Let_def)

lemma roundHalfEven_mono:
  assumes "x \<le> y"
  shows "roundHalfEven x \<le> roundHalfEven y"
proof (cases "\<lfloor>x\<rfloor> = \<lfloor>y\<rfloor>")
  case True
  have "x - of_int \<lfloor>y\<rfloor> \<le> y - of_int \<lfloor>y\<rfloor>" using assms by simp
  then show ?thesis
    unfolding roundHalfEven_def Let_def True by auto
next
  case False
  have "\<lfloor>x\<rfloor> \<le> \<lfloor>y\<rfloor>" using assms by (rule floor_mono)
  with False have "\<lfloor>x\<rfloor> + 1 \<le> \<lfloor>y\<rfloor>" by simp
  with roundHalfEven_bounds(2) [of x] roundHalfEven_bounds(1) [of y] show ?thesis by linarith
qed

lemma floor_log2_half: "0 < a \<Longrightarrow> \<lfloor>log 2 (a / 2)\<rfloor> = \<lfloor>log 2 a\<rfloor> - 1"
proof -
  assume "0 < a"
  then have "log 2 (a / 2) = log 2 a - 1" by (simp add: log_divide)
  then show ?thesis by simp
qed

lemma floor_log2_double: "0 < a \<Longrightarrow> \<lfloor>log 2 (2 * a)\<rfloor> = \<lfloor>log 2 a\<rfloor> + 1"
proof -
  assume "0 < a"
  then have "log 2 (2 * a) = log 2 a + 1" by (simp add: log_mult)
  then show ?thesis by simp
qed

lemma binadeUp_log: "1 \<le> a \<Longrightarrow> binadeUp k a = min (int k) \<lfloor>log 2 a\<rfloor>"
proof (induction k arbitrary: a)
  case 0
  then have "0 \<le> log 2 a" by simp
  then show ?case by simp
next
  case (Suc k)
  show ?case
  proof (cases "a < 2")
    case True
    have "0 \<le> log 2 a" using Suc.prems by simp
    moreover have "log 2 a < 1" using True Suc.prems by (simp add: log_less_iff)
    ultimately have "\<lfloor>log 2 a\<rfloor> = 0" by linarith
    with True show ?thesis by simp
  next
    case False
    then have "1 \<le> a / 2" by simp
    from Suc.IH [OF this] floor_log2_half [of a] Suc.prems False show ?thesis by simp
  qed
qed

lemma binadeDown_log:
  "0 < a \<Longrightarrow> a < 1 \<Longrightarrow> binadeDown k a = max (- int k) \<lfloor>log 2 a\<rfloor>"
proof (induction k arbitrary: a)
  case 0
  then have "log 2 a < 0" by simp
  then have "\<lfloor>log 2 a\<rfloor> < 0" by linarith
  then show ?case by simp
next
  case (Suc k)
  have neg: "\<lfloor>log 2 a\<rfloor> < 0" using Suc.prems by (simp add: floor_less_iff)
  show ?case
  proof (cases "1 \<le> 2 * a")
    case True
    then have "- 1 \<le> log 2 a" using Suc.prems
      by (simp add: le_log_iff powr_minus_divide)
    with neg have "\<lfloor>log 2 a\<rfloor> = - 1" by linarith
    moreover have "binadeDown k (2 * a) = 0" using True by (cases k) simp_all
    ultimately show ?thesis using Suc.prems by simp
  next
    case False
    then have "0 < 2 * a" "2 * a < 1" using Suc.prems by simp_all
    from Suc.IH [OF this] floor_log2_double [of a] Suc.prems show ?thesis by simp
  qed
qed

lemma binade_log: "0 < a \<Longrightarrow> binade a = max (- 1022) (min 1023 \<lfloor>log 2 a\<rfloor>)"
proof (cases "1 \<le> a")
  case True
  define L where "L = \<lfloor>log 2 a\<rfloor>"
  have "0 \<le> log 2 a" using True by simp
  then have "0 \<le> L" unfolding L_def by simp
  moreover have "binade a = min 1023 L" using True unfolding L_def by (simp add: binade_def binadeUp_log)
  ultimately show ?thesis unfolding L_def [symmetric] by linarith
next
  case False
  assume "0 < a"
  define L where "L = \<lfloor>log 2 a\<rfloor>"
  from False \<open>0 < a\<close> have "log 2 a < 0" by simp
  then have "L < 0" unfolding L_def by linarith
  moreover have "binade a = max (- 1022) L" using False \<open>0 < a\<close> unfolding L_def
    by (simp add: binade_def binadeDown_log)
  ultimately show ?thesis unfolding L_def [symmetric] by linarith
qed

lemma binade_mono: "0 < a \<Longrightarrow> a \<le> b \<Longrightarrow> binade a \<le> binade b"
proof -
  assume a: "0 < a" "a \<le> b"
  define L where "L = \<lfloor>log 2 a\<rfloor>"
  define M where "M = \<lfloor>log 2 b\<rfloor>"
  from a have "log 2 a \<le> log 2 b" by simp
  then have "L \<le> M" unfolding L_def M_def by (rule floor_mono)
  moreover have "binade a = max (- 1022) (min 1023 L)" unfolding L_def using a by (intro binade_log) simp
  moreover have "binade b = max (- 1022) (min 1023 M)" unfolding M_def using a by (intro binade_log) simp
  ultimately show ?thesis by linarith
qed

lemma binade_range: "0 < a \<Longrightarrow> - 1022 \<le> binade a \<and> binade a \<le> 1023"
proof -
  assume a: "0 < a"
  define L where "L = \<lfloor>log 2 a\<rfloor>"
  have "binade a = max (- 1022) (min 1023 L)" unfolding L_def using a by (rule binade_log)
  then show ?thesis by linarith
qed

lemma binade_lower: "0 < a \<Longrightarrow> - 1022 < binade a \<Longrightarrow> pow2 (binade a) \<le> a"
proof -
  assume a: "0 < a" "- 1022 < binade a"
  define L where "L = \<lfloor>log 2 a\<rfloor>"
  have "binade a = max (- 1022) (min 1023 L)" unfolding L_def using a(1) by (rule binade_log)
  with a(2) have "binade a \<le> L" by linarith
  then have "real_of_int (binade a) \<le> log 2 a" unfolding L_def by linarith
  then show ?thesis using a(1) by (simp add: pow2_powr le_log_iff)
qed

lemma binade_upper: "0 < a \<Longrightarrow> binade a < 1023 \<Longrightarrow> a < pow2 (binade a + 1)"
proof -
  assume a: "0 < a" "binade a < 1023"
  define L where "L = \<lfloor>log 2 a\<rfloor>"
  have "binade a = max (- 1022) (min 1023 L)" unfolding L_def using a(1) by (rule binade_log)
  with a(2) have "L \<le> binade a" by linarith
  then have "log 2 a < real_of_int (binade a + 1)" unfolding L_def by linarith
  then show ?thesis using a(1) by (simp add: pow2_powr log_less_iff)
qed

lemma rdMag_nonneg: "0 \<le> a \<Longrightarrow> 0 \<le> rdMag a"
proof -
  assume a: "0 \<le> a"
  have "0 \<le> a / pow2 (binade a - 52)" using a pow2_pos [of "binade a - 52"] by simp
  then have "0 \<le> \<lfloor>a / pow2 (binade a - 52)\<rfloor>" by simp
  with roundHalfEven_bounds(1) [of "a / pow2 (binade a - 52)"]
  have "0 \<le> roundHalfEven (a / pow2 (binade a - 52))" by linarith
  then show ?thesis using pow2_pos [of "binade a - 52"] by (simp add: rdMag_def)
qed

lemma rdMag_mono:
  assumes a: "0 < a" and ab: "a \<le> b"
  shows "rdMag a \<le> rdMag b"
proof (cases "binade a = binade b")
  case True
  let ?u = "pow2 (binade b - 52)"
  have u: "0 < ?u" by (rule pow2_pos)
  then have "a / ?u \<le> b / ?u" using ab by (simp add: divide_right_mono)
  then have "roundHalfEven (a / ?u) \<le> roundHalfEven (b / ?u)" by (rule roundHalfEven_mono)
  then have "real_of_int (roundHalfEven (a / ?u)) * ?u \<le> real_of_int (roundHalfEven (b / ?u)) * ?u"
    using u by simp
  then show ?thesis by (simp add: rdMag_def True)
next
  case False
  have b: "0 < b" using a ab by simp
  from binade_mono [OF a ab] False have lt: "binade a < binade b" by simp
  let ?ua = "pow2 (binade a - 52)"
  let ?ub = "pow2 (binade b - 52)"
  have ua: "0 < ?ua" and ub: "0 < ?ub" by (rule pow2_pos)+
  have p53: "pow2 53 = 9007199254740992" by (simp add: pow2_def)
  have p52: "pow2 52 = 4503599627370496" by (simp add: pow2_def)
  have "binade a < 1023" using lt binade_range [OF b] by simp
  from binade_upper [OF a this] have "a < pow2 ((binade a - 52) + 53)" by (simp add: add.commute)
  then have "a < ?ua * pow2 53" by (simp only: pow2_add)
  then have "a / ?ua \<le> of_int 9007199254740992" using ua by (simp add: p53 pos_divide_le_eq mult.commute)
  then have "roundHalfEven (a / ?ua) \<le> roundHalfEven (of_int 9007199254740992)"
    by (rule roundHalfEven_mono)
  then have "roundHalfEven (a / ?ua) \<le> 9007199254740992" by (simp only: roundHalfEven_int)
  then have "real_of_int (roundHalfEven (a / ?ua)) \<le> pow2 53" unfolding p53 by linarith
  then have "rdMag a \<le> pow2 53 * ?ua" using ua by (simp add: rdMag_def)
  also have "\<dots> = pow2 (binade a + 1)" by (simp add: pow2_add [symmetric] add.commute)
  also have "\<dots> \<le> pow2 (binade b)" using lt by (intro pow2_mono) simp
  finally have 1: "rdMag a \<le> pow2 (binade b)" .
  have "- 1022 < binade b" using lt binade_range [OF a] by simp
  from binade_lower [OF b this] have "pow2 ((binade b - 52) + 52) \<le> b" by simp
  then have "?ub * pow2 52 \<le> b" by (simp only: pow2_add)
  then have "of_int 4503599627370496 \<le> b / ?ub" using ub by (simp add: p52 pos_le_divide_eq mult.commute)
  then have "roundHalfEven (of_int 4503599627370496) \<le> roundHalfEven (b / ?ub)"
    by (rule roundHalfEven_mono)
  then have "4503599627370496 \<le> roundHalfEven (b / ?ub)" by (simp only: roundHalfEven_int)
  then have "pow2 52 \<le> real_of_int (roundHalfEven (b / ?ub))" unfolding p52 by linarith
  then have "pow2 52 * ?ub \<le> rdMag b" using ub by (simp add: rdMag_def)
  moreover have "pow2 52 * ?ub = pow2 (binade b)" by (simp add: pow2_add [symmetric])
  ultimately have 2: "pow2 (binade b) \<le> rdMag b" by simp
  from 1 2 show ?thesis by simp
qed

lemma rd_pos: "0 < x \<Longrightarrow> rd x = (if pow2 1024 \<le> rdMag x then PInf else Fin (rdMag x))"
  by (simp add: rd_def)

lemma rd_neg: "x < 0 \<Longrightarrow> rd x = (if pow2 1024 \<le> rdMag (- x) then NInf else Fin (- rdMag (- x)))"
  by (simp add: rd_def)

lemma rd_zero: "rd 0 = Fin 0"
  by (simp add: rd_def)

lemma rd_mono:
  assumes "x \<le> y"
  shows "nle (rd x) (rd y)"
proof -
  consider (nn) "y < 0" | (nz) "x < 0" "y = 0" | (np) "x < 0" "0 < y" | (zz) "x = 0" "y = 0"
    | (zp) "x = 0" "0 < y" | (pp) "0 < x"
    using assms by linarith
  then show ?thesis
  proof cases
    case nn
    then have x: "x < 0" using assms by simp
    have "rdMag (- y) \<le> rdMag (- x)" using nn assms by (intro rdMag_mono) simp_all
    then show ?thesis using nn x by (auto simp add: rd_neg nle_def)
  next
    case nz
    have "0 \<le> rdMag (- x)" using nz by (intro rdMag_nonneg) simp
    then show ?thesis using nz by (auto simp add: rd_neg rd_zero nle_def)
  next
    case np
    have "0 \<le> rdMag (- x)" "0 \<le> rdMag y" using np by (simp_all add: rdMag_nonneg)
    then show ?thesis using np by (auto simp add: rd_neg rd_pos nle_def)
  next
    case zz
    then show ?thesis by (simp add: rd_zero nle_def)
  next
    case zp
    have "0 \<le> rdMag y" using zp by (simp add: rdMag_nonneg)
    then show ?thesis using zp by (auto simp add: rd_zero rd_pos nle_def)
  next
    case pp
    then have y: "0 < y" using assms by simp
    have "rdMag x \<le> rdMag y" using pp assms by (rule rdMag_mono)
    then show ?thesis using pp y by (auto simp add: rd_pos nle_def)
  qed
qed

lemma rd_nat:
  assumes "n < 9007199254740992"
  shows "rd (real n) = Fin (real n)"
proof (cases "n = 0")
  case True
  then show ?thesis by (simp add: rd_zero)
next
  case False
  let ?a = "real n"
  have a: "0 < ?a" "1 \<le> ?a" using False by simp_all
  have p53: "pow2 53 = 9007199254740992" by (simp add: pow2_def)
  have e0: "0 \<le> binade ?a" using a(2) binadeUp_log [of ?a 1023] by (simp add: binade_def)
  then have "pow2 (binade ?a) \<le> ?a" using a(1) by (intro binade_lower) simp_all
  also have "?a < pow2 53" using assms unfolding p53 by simp
  finally have "pow2 (binade ?a) < pow2 53" .
  have e52: "binade ?a \<le> 52"
  proof (rule ccontr)
    assume "\<not> binade ?a \<le> 52"
    then have "pow2 53 \<le> pow2 (binade ?a)" by (intro pow2_mono) simp
    with \<open>pow2 (binade ?a) < pow2 53\<close> show False by simp
  qed
  define k where "k = nat (52 - binade ?a)"
  have u: "pow2 (binade ?a - 52) = 1 / 2 ^ k" using e52 e0
    by (cases "binade ?a = 52") (simp_all add: pow2_def k_def)
  have "?a / pow2 (binade ?a - 52) = of_int (int (n * 2 ^ k))" by (simp add: u)
  then have "roundHalfEven (?a / pow2 (binade ?a - 52)) = int (n * 2 ^ k)"
    by (simp only: roundHalfEven_int)
  then have m: "rdMag ?a = ?a" by (simp add: rdMag_def u)
  have "?a < pow2 1024" using assms by (simp add: pow2_def)
  then show ?thesis using a(1) m by (simp add: rd_pos)
qed

lemma rd_overflow:
  assumes "pow2 1024 \<le> x"
  shows "rd x = PInf"
proof -
  have x: "0 < x" using assms pow2_pos [of 1024] by linarith
  have p: "0 < pow2 1024" by (rule pow2_pos)
  have "log 2 (pow2 1024) = real_of_int 1024"
    unfolding pow2_powr by (rule log_powr_cancel) simp_all
  then have "binade (pow2 1024) = 1023" using binade_log [OF p] by simp
  moreover have "pow2 1024 / pow2 971 = of_int 9007199254740992" by (simp add: pow2_def)
  then have "roundHalfEven (pow2 1024 / pow2 971) = 9007199254740992"
    by (simp only: roundHalfEven_int)
  ultimately have "rdMag (pow2 1024) = 9007199254740992 * pow2 971" by (simp add: rdMag_def)
  also have "\<dots> = pow2 1024" by (simp add: pow2_def)
  finally have "pow2 1024 \<le> rdMag x" using rdMag_mono [OF p assms] by simp
  then show ?thesis using x by (simp add: rd_pos)
qed

text \<open>Unfolding the search of the exponent on a numeral of steps.\<close>

lemma binadeUp_numeral:
  "binadeUp (numeral k) a = (if a < 2 then 0 else 1 + binadeUp (pred_numeral k) (a / 2))"
  by (simp add: numeral_eq_Suc)

lemma binadeDown_numeral:
  "binadeDown (numeral k) a = (if 1 \<le> a then 0 else binadeDown (pred_numeral k) (2 * a) - 1)"
  by (simp add: numeral_eq_Suc)

lemmas rd_eval = rd_pos rdMag_def binade_def binadeUp_numeral binadeDown_numeral pow2_def
  roundHalfEven_def Let_def

subsection \<open>Colours\<close>

lemmas jsnum_ops = plus_jsnum_def minus_jsnum_def uminus_jsnum_def times_jsnum_def divide_jsnum_def

lemma lower_hex_digit:
  assumes "c \<in> set ''0123456789abcdef''"
  shows "\<exists>v < 16. hexDigitVal c = Some v \<and> digitChar v = c \<and> \<not> isWhite c \<and>
           c \<noteq> CHR ''-'' \<and> c \<noteq> CHR ''+'' \<and> c \<noteq> CHR ''x'' \<and> c \<noteq> CHR ''X''"
  using assms by (auto simp: hexDigitVal_def digitChar_def isWhite_def)

lemma parseInt16_two:
  assumes "hexDigitVal a = Some va" "hexDigitVal b = Some vb" "\<not> isWhite a"
    "a \<noteq> CHR ''-''" "a \<noteq> CHR ''+''" "b \<noteq> CHR ''x''" "b \<noteq> CHR ''X''"
    "va < 16" "vb < 16"
  shows "parseInt16 [a, b] = Fin (real (16 * va + vb))"
proof -
  have "parseInt16 [a, b] = rd (real (16 * va + vb))"
    using assms by (simp add: parseInt16_def Let_def)
  moreover have "16 * va + vb < 9007199254740992" using assms(8, 9) by simp
  ultimately show ?thesis by (simp only: rd_nat)
qed

text \<open>
  The channel \<open>n\<close> of a colour string is stored as the double nearest to \<open>n / 255\<close>; the
  product of that double with 255, rounded again, is \<open>n\<close> or a little more than \<open>n - 1\<close>,
  and its ceiling is \<open>n\<close>. Each of the 256 values is computed.
\<close>

lemma channel_0: "nceil (fmul (fdiv (Fin (real 0)) (Fin 255)) (Fin 255)) = Fin (real 0)"
  by (simp add: rd_zero)

lemma channel_32:
  "\<forall>n \<in> set [1..<32]. nceil (fmul (fdiv (Fin (real n)) (Fin 255)) (Fin 255)) = Fin (real n)"
  by (simp add: upt_rec rd_eval)

lemma channel_64:
  "\<forall>n \<in> set [32..<64]. nceil (fmul (fdiv (Fin (real n)) (Fin 255)) (Fin 255)) = Fin (real n)"
  by (simp add: upt_rec rd_eval)

lemma channel_96:
  "\<forall>n \<in> set [64..<96]. nceil (fmul (fdiv (Fin (real n)) (Fin 255)) (Fin 255)) = Fin (real n)"
  by (simp add: upt_rec rd_eval)

lemma channel_128:
  "\<forall>n \<in> set [96..<128]. nceil (fmul (fdiv (Fin (real n)) (Fin 255)) (Fin 255)) = Fin (real n)"
  by (simp add: upt_rec rd_eval)

lemma channel_160:
  "\<forall>n \<in> set [128..<160]. nceil (fmul (fdiv (Fin (real n)) (Fin 255)) (Fin 255)) = Fin (real n)"
  by (simp add: upt_rec rd_eval)

lemma channel_192:
  "\<forall>n \<in> set [160..<192]. nceil (fmul (fdiv (Fin (real n)) (Fin 255)) (Fin 255)) = Fin (real n)"
  by (simp add: upt_rec rd_eval)

lemma channel_224:
  "\<forall>n \<in> set [192..<224]. nceil (fmul (fdiv (Fin (real n)) (Fin 255)) (Fin 255)) = Fin (real n)"
  by (simp add: upt_rec rd_eval)

lemma channel_256:
  "\<forall>n \<in> set [224..<256]. nceil (fmul (fdiv (Fin (real n)) (Fin 255)) (Fin 255)) = Fin (real n)"
  by (simp add: upt_rec rd_eval)

lemma channel_round_trip:
  assumes "n < 256"
  shows "nceil (fmul (fdiv (Fin (real n)) (Fin 255)) (Fin 255)) = Fin (real n)"
proof -
  have "n = 0 \<or> n \<in> set [1..<32] \<or> n \<in> set [32..<64] \<or> n \<in> set [64..<96]
    \<or> n \<in> set [96..<128] \<or> n \<in> set [128..<160] \<or> n \<in> set [160..<192]
    \<or> n \<in> set [192..<224] \<or> n \<in> set [224..<256]"
    using assms unfolding set_upt atLeastLessThan_iff by linarith
  then consider "n = 0" | "n \<in> set [1..<32]" | "n \<in> set [32..<64]" | "n \<in> set [64..<96]"
    | "n \<in> set [96..<128]" | "n \<in> set [128..<160]" | "n \<in> set [160..<192]"
    | "n \<in> set [192..<224]" | "n \<in> set [224..<256]"
    by blast
  then show ?thesis
  proof cases
    case 1
    then show ?thesis by (simp only: channel_0)
  next
    case 2
    with channel_32 show ?thesis by blast
  next
    case 3
    with channel_64 show ?thesis by blast
  next
    case 4
    with channel_96 show ?thesis by blast
  next
    case 5
    with channel_128 show ?thesis by blast
  next
    case 6
    with channel_160 show ?thesis by blast
  next
    case 7
    with channel_192 show ?thesis by blast
  next
    case 8
    with channel_224 show ?thesis by blast
  next
    case 9
    with channel_256 show ?thesis by blast
  qed
qed

lemma hex_byte:
  assumes "n < 256"
  shows "hex (fdiv (Fin (real n)) (Fin 255)) = [digitChar (n div 16), digitChar (n mod 16)]"
proof -
  note c = channel_round_trip [OF assms]
  have s: "numToString 16 (Fin (real n)) = natToString 16 n"
    by (simp add: intToString_def)
  show ?thesis
  proof (cases "n < 16")
    case True
    then have "natToString 16 n = [digitChar n]" by (simp add: natToString.simps)
    with True show ?thesis
      unfolding hex_def c s by (simp add: padStart_def digitChar_def)
  next
    case False
    have d: "n div 16 < 16" using assms by simp
    have "natToString 16 n = natToString 16 (n div 16) @ [digitChar (n mod 16)]"
      using False by (subst natToString.simps) simp
    also have "natToString 16 (n div 16) = [digitChar (n div 16)]"
      using d by (subst natToString.simps) simp
    finally show ?thesis
      unfolding hex_def c s by (simp add: padStart_def)
  qed
qed

lemma hex_channel:
  assumes "a \<in> set ''0123456789abcdef''" "b \<in> set ''0123456789abcdef''"
  shows "hex (fdiv (parseInt16 [a, b]) (Fin 255)) = [a, b]"
proof -
  from lower_hex_digit [OF assms(1)] obtain va where a: "va < 16" "hexDigitVal a = Some va"
    "digitChar va = a" "\<not> isWhite a" "a \<noteq> CHR ''-''" "a \<noteq> CHR ''+''"
    by blast
  from lower_hex_digit [OF assms(2)] obtain vb where b: "vb < 16" "hexDigitVal b = Some vb"
    "digitChar vb = b" "b \<noteq> CHR ''x''" "b \<noteq> CHR ''X''"
    by blast
  have n: "16 * va + vb < 256" using a(1) b(1) by simp
  have "(16 * va + vb) div 16 = va" "(16 * va + vb) mod 16 = vb"
    using b(1) by simp_all
  then show ?thesis
    unfolding parseInt16_two [OF a(2) b(2) a(4) a(5) a(6) b(4) b(5) a(1) b(1)] hex_byte [OF n]
    using a(3) b(3) by simp
qed

text \<open>
  The product is rounded before the ceiling is taken. For the double nearest to 0.2 the
  exact product with 255 is a little more than 51, of ceiling 52; the rounded product is
  51, printed \<^verbatim>\<open>33\<close>.
\<close>

lemma hex_rounds:
  "isDouble (Fin (3602879701896397 / 18014398509481984)) \<and>
   hex (Fin (3602879701896397 / 18014398509481984)) = ''33'' \<and>
   \<lceil>3602879701896397 / 18014398509481984 * 255 :: real\<rceil> = 52"
proof -
  have "rd (3602879701896397 / 18014398509481984) = Fin (3602879701896397 / 18014398509481984)"
    by (simp add: rd_eval)
  moreover have "fmul (Fin (3602879701896397 / 18014398509481984)) (Fin 255) = Fin 51"
    by (simp add: rd_eval)
  then have "hex (Fin (3602879701896397 / 18014398509481984)) = ''33''"
    by (simp add: hex_def intToString_def natToString.simps padStart_def digitChar_def)
  moreover have "\<lceil>3602879701896397 / 18014398509481984 * 255 :: real\<rceil> = 52"
    by (simp add: ceiling_eq_iff)
  ultimately show ?thesis by simp
qed

text \<open>
  C6: formatting the parsed colour gives the string back, for \<open>#\<close> followed by six
  lowercase hexadecimal digits. The quotient by 255 and the product with 255 are rounded
  as the doubles of the code are.
\<close>

theorem color_round_trip:
  assumes "set ds \<subseteq> set ''0123456789abcdef''" and "length ds = 6"
  shows "getColorStr stdColor (Some (getStdColor (CHR ''#'' # ds))) = CHR ''#'' # ds"
proof -
  from assms(2) obtain a b c d e f where ds: "ds = [a, b, c, d, e, f]"
    by (auto simp: length_Suc_conv eval_nat_numeral)
  have m: "a \<in> set ''0123456789abcdef''" "b \<in> set ''0123456789abcdef''"
    "c \<in> set ''0123456789abcdef''" "d \<in> set ''0123456789abcdef''"
    "e \<in> set ''0123456789abcdef''" "f \<in> set ''0123456789abcdef''"
    using assms(1) unfolding ds by auto
  have "getStdColor (CHR ''#'' # ds) =
      [fdiv (parseInt16 [a, b]) (Fin 255), fdiv (parseInt16 [c, d]) (Fin 255),
       fdiv (parseInt16 [e, f]) (Fin 255)]"
    by (simp add: getStdColor_def ds substr_def upt_0_3 Let_def)
  then show ?thesis
    by (simp add: getColorStr_def hex_channel [OF m(1) m(2)] hex_channel [OF m(3) m(4)]
          hex_channel [OF m(5) m(6)] ds)
qed

text \<open>
  The channels of \<^verbatim>\<open>#1e90ff\<close> are the doubles nearest to 30 / 255 and 144 / 255, and 1;
  neither of the first two is the quotient itself.
\<close>

theorem color_round_trip_witness:
  "getColorStr [Fin 0, Fin 0, Fin 0] (Some (getStdColor ''#1e90ff'')) = ''#1e90ff'' \<and>
   getStdColor ''#1e90ff'' =
     [Fin (4238682002231055 / 36028797018963968), Fin (2543209201338633 / 4503599627370496), Fin 1]"
proof -
  have "set ''1e90ff'' \<subseteq> set ''0123456789abcdef''" "length ''1e90ff'' = 6"
    by simp_all
  from color_round_trip [OF this]
  have "getColorStr [Fin 0, Fin 0, Fin 0] (Some (getStdColor ''#1e90ff'')) = ''#1e90ff''" .
  moreover have "parseInt16 ''1e'' = Fin 30" "parseInt16 ''90'' = Fin 144"
      "parseInt16 ''ff'' = Fin 255"
    by (simp_all add: parseInt16_def isWhite_def hexDigitVal_def Let_def rd_eval)
  then have "getStdColor ''#1e90ff'' =
     [Fin (4238682002231055 / 36028797018963968), Fin (2543209201338633 / 4503599627370496), Fin 1]"
    by (simp add: getStdColor_def substr_def upt_0_3 Let_def rd_eval)
  ultimately show ?thesis by simp
qed

section \<open>Properties of the projection transforms\<close>

subsection \<open>Arithmetic with non-finite values\<close>

lemma NaN_absorbs [simp]:
  "x + NaN = NaN" "NaN + x = NaN" "x - NaN = NaN" "NaN - x = NaN"
  "x * NaN = NaN" "NaN * x = NaN" "x / NaN = NaN" "NaN / x = NaN" "- NaN = NaN"
  by (cases x; simp add: jsnum_ops)+

lemma Fin_arith [simp]:
  "Fin a + Fin b = Fin (a + b)" "Fin a - Fin b = Fin (a - b)" "Fin a * Fin b = Fin (a * b)"
  "- Fin a = Fin (- a)" "b \<noteq> 0 \<Longrightarrow> Fin a / Fin b = Fin (a / b)" "Fin 0 / Fin 0 = NaN"
  by (simp_all add: jsnum_ops)

lemma self_diff: "x - x = Fin 0 \<or> x - x = NaN"
  by (cases x) (simp_all add: jsnum_ops)

lemma times_zero: "d * Fin 0 = Fin 0 \<or> d * Fin 0 = NaN"
  by (cases d) (simp_all add: jsnum_ops infOfSign_def)

lemma findR_same: "findR rMin rMax x x x = NaN"
proof -
  have "(rMax - rMin) * (x - x) / (x - x) = NaN"
    using self_diff [of x] times_zero [of "rMax - rMin"] by auto
  then show ?thesis by (simp add: findR_def)
qed

lemma min2_same: "min2 PInf x = x" "min2 x x = x" "max2 NInf x = x" "max2 x x = x"
  by (cases x; simp add: min2_def max2_def)+

lemma mathMin_same:
  assumes "xs \<noteq> []" "set xs \<subseteq> {x}"
  shows "mathMin xs = x" "mathMax xs = x"
proof -
  have "\<And>acc. acc = x \<or> acc = PInf \<Longrightarrow> fold (\<lambda>x m. min2 m x) xs acc = (if xs = [] then acc else x)"
    using assms(2) by (induction xs) (auto simp: min2_same)
  then show "mathMin xs = x" using assms(1) by (simp add: mathMin_def)
  have "\<And>acc. acc = x \<or> acc = NInf \<Longrightarrow> fold (\<lambda>x m. max2 m x) xs acc = (if xs = [] then acc else x)"
    using assms(2) by (induction xs) (auto simp: min2_same)
  then show "mathMax xs = x" using assms(1) by (simp add: mathMax_def)
qed

subsection \<open>The loop of the radial transforms\<close>

text \<open>The store after the first \<open>n\<close> turns of the loop: only labels are written.\<close>

primrec labelStore :: "addr list \<Rightarrow> string list \<Rightarrow> nat \<Rightarrow> store \<Rightarrow> store" where
  "labelStore pts labels 0 h = h"
| "labelStore pts labels (Suc n) h =
     (labelStore pts labels n h)
       (pts ! n := (labelStore pts labels n h (pts ! n))\<lparr>label := labelAt labels n\<rparr>)"

lemma labelStore_coords: "coords (labelStore pts labels n h a) = coords (h a)"
  by (induction n arbitrary: a) simp_all

lemma labelStore_other:
  "n \<le> length pts \<Longrightarrow> a \<notin> set (take n pts) \<Longrightarrow> labelStore pts labels n h a = h a"
  by (induction n) (auto simp: take_Suc_conv_app_nth)

lemma labelStore_last:
  assumes "i < n" "\<forall>j. i < j \<and> j < n \<longrightarrow> pts ! j \<noteq> pts ! i"
  shows "label (labelStore pts labels n h (pts ! i)) = labelAt labels i"
  using assms
proof (induction n)
  case 0
  then show ?case by simp
next
  case (Suc n)
  show ?case
  proof (cases "i = n")
    case True
    then show ?thesis by simp
  next
    case False
    with Suc.prems have "i < n" "pts ! n \<noteq> pts ! i" by auto
    moreover from Suc.prems have "\<forall>j. i < j \<and> j < n \<longrightarrow> pts ! j \<noteq> pts ! i" by auto
    ultimately show ?thesis using Suc.IH by simp
  qed
qed

lemma fold_explodeStep:
  "fold (explodeStep f pts labels) [0..<n] ([], h) =
     (map (\<lambda>i. \<lparr>coords = f (coords (h (pts ! i))), label = labelAt labels i\<rparr>) [0..<n],
      labelStore pts labels n h)"
proof (induction n)
  case 0
  show ?case by simp
next
  case (Suc n)
  have step: "explodeStep f pts labels n
      (map (\<lambda>i. \<lparr>coords = f (coords (h (pts ! i))), label = labelAt labels i\<rparr>) [0..<n],
       labelStore pts labels n h) =
     (map (\<lambda>i. \<lparr>coords = f (coords (h (pts ! i))), label = labelAt labels i\<rparr>) [0..<Suc n],
      labelStore pts labels (Suc n) h)"
    by (simp add: explodeStep_def labelStore_coords Let_def)
  have "fold (explodeStep f pts labels) [0..<Suc n] ([], h) =
      explodeStep f pts labels n (fold (explodeStep f pts labels) [0..<n] ([], h))"
    by simp
  also have "\<dots> = explodeStep f pts labels n
      (map (\<lambda>i. \<lparr>coords = f (coords (h (pts ! i))), label = labelAt labels i\<rparr>) [0..<n],
       labelStore pts labels n h)"
    by (simp only: Suc)
  finally show ?case by (simp only: step)
qed

lemma explode3DPoints_eq:
  "explode3DPoints h pts labels rMin rMax aMin aMax doKeepCoords =
     (map (\<lambda>i. \<lparr>coords = explode3DCoords rMin rMax aMin aMax
                   (if aMax = Undefined then aMin else doKeepCoords)
                   (mathMin (map (\<lambda>x. coordAt (coords (h x)) 0) pts))
                   (mathMax (map (\<lambda>x. coordAt (coords (h x)) 0) pts))
                   (coords (h (pts ! i))),
                 label = labelAt labels i\<rparr>) [0..<length pts],
      labelStore pts labels (length pts) h)"
  by (simp add: explode3DPoints_def fold_explodeStep Let_def)

lemma explodeNDPoints_eq:
  "explodeNDPoints h pts labels rMin rMax =
     (map (\<lambda>i. \<lparr>coords = explodeNDCoords rMin rMax
                   (mathMin (map (\<lambda>x. coordAt (coords (h x)) 0) pts))
                   (mathMax (map (\<lambda>x. coordAt (coords (h x)) 0) pts))
                   (coords (h (pts ! i))),
                 label = labelAt labels i\<rparr>) [0..<length pts],
      labelStore pts labels (length pts) h)"
  by (simp add: explodeNDPoints_def fold_explodeStep Let_def)

text \<open>
  C4, as the code has it: perspectiveProjectPoints assigns to nothing it is given; the
  two radial transforms leave the list and every coordinate as they were, but write
  \<open>labels[i]\<close> to the label of the input point \<open>pts[i]\<close>. All three return a new list of
  as many points, in the order of the input, the point at \<open>i\<close> labelled \<open>labels[i]\<close>.
\<close>

theorem transforms_frame:
  assumes "explode3DPoints h pts labels rMin rMax aMin aMax doKeepCoords = (newP, h') \<or>
           explodeNDPoints h pts labels rMin rMax = (newP, h')"
  shows "length newP = length pts \<and>
         (\<forall>i < length pts. label (newP ! i) = labelAt labels i) \<and>
         (\<exists>f. \<forall>i < length pts. coords (newP ! i) = f (coords (h (pts ! i)))) \<and>
         (\<forall>a. coords (h' a) = coords (h a)) \<and>
         (\<forall>a. a \<notin> set pts \<longrightarrow> h' a = h a) \<and>
         (\<forall>i < length pts. (\<forall>j. i < j \<and> j < length pts \<longrightarrow> pts ! j \<noteq> pts ! i) \<longrightarrow>
            label (h' (pts ! i)) = labelAt labels i) \<and>
         length (perspectiveProjectPoints h pts labels minZVal) = length pts \<and>
         (\<forall>i < length pts.
            label (perspectiveProjectPoints h pts labels minZVal ! i) = labelAt labels i) \<and>
         (\<exists>f. \<forall>i < length pts. coords (perspectiveProjectPoints h pts labels minZVal ! i) =
            f (coords (h (pts ! i))))"
proof -
  from assms obtain f where
    n: "newP = map (\<lambda>i. \<lparr>coords = f (coords (h (pts ! i))), label = labelAt labels i\<rparr>)
          [0..<length pts]"
    and h': "h' = labelStore pts labels (length pts) h"
    unfolding explode3DPoints_eq explodeNDPoints_eq by auto
  have 1: "length newP = length pts \<and> (\<forall>i < length pts. label (newP ! i) = labelAt labels i)"
    by (simp add: n)
  have 2: "\<exists>f. \<forall>i < length pts. coords (newP ! i) = f (coords (h (pts ! i)))"
    by (rule exI [of _ f]) (simp add: n)
  have 3: "\<forall>a. coords (h' a) = coords (h a)"
    by (simp add: h' labelStore_coords)
  have 4: "\<forall>a. a \<notin> set pts \<longrightarrow> h' a = h a"
    by (simp add: h' labelStore_other)
  have 5: "\<forall>i < length pts. (\<forall>j. i < j \<and> j < length pts \<longrightarrow> pts ! j \<noteq> pts ! i) \<longrightarrow>
            label (h' (pts ! i)) = labelAt labels i"
    by (simp add: h' labelStore_last)
  have 6: "length (perspectiveProjectPoints h pts labels minZVal) = length pts \<and>
         (\<forall>i < length pts.
            label (perspectiveProjectPoints h pts labels minZVal ! i) = labelAt labels i)"
    by (simp add: perspectiveProjectPoints_def Let_def)
  have 7: "\<exists>f. \<forall>i < length pts. coords (perspectiveProjectPoints h pts labels minZVal ! i) =
            f (coords (h (pts ! i)))"
    by (rule exI [of _ "\<lambda>pt. map (\<lambda>x. fdiv x (perspectiveZ
          (mathMin (map (\<lambda>x. coordAt (coords (h x)) 0) pts))
          (if minZVal = Undefined then Fin 2 else toNumber minZVal) pt)) (drop 1 pt)"])
       (simp add: perspectiveProjectPoints_def Let_def)
  from 1 2 3 4 5 6 7 show ?thesis by blast
qed

theorem transforms_frame_witness:
  "length (fst (explodeNDPoints
      (\<lambda>a. \<lparr>coords = (if a = 0 then [Fin 0, Fin 3, Fin 4] else [Fin 1, Fin 0, Fin 1]),
             label = None\<rparr>) [0, 1] [''a'', ''b''] (Fin 1) (Fin 2))) = 2 \<and>
   label (fst (explodeNDPoints
      (\<lambda>a. \<lparr>coords = (if a = 0 then [Fin 0, Fin 3, Fin 4] else [Fin 1, Fin 0, Fin 1]),
             label = None\<rparr>) [0, 1] [''a'', ''b''] (Fin 1) (Fin 2)) ! 1) = Some ''b'' \<and>
   coords (snd (explodeNDPoints
      (\<lambda>a. \<lparr>coords = (if a = 0 then [Fin 0, Fin 3, Fin 4] else [Fin 1, Fin 0, Fin 1]),
             label = None\<rparr>) [0, 1] [''a'', ''b''] (Fin 1) (Fin 2)) 0) = [Fin 0, Fin 3, Fin 4] \<and>
   label (snd (explodeNDPoints
      (\<lambda>a. \<lparr>coords = (if a = 0 then [Fin 0, Fin 3, Fin 4] else [Fin 1, Fin 0, Fin 1]),
             label = None\<rparr>) [0, 1] [''a'', ''b''] (Fin 1) (Fin 2)) 0) = Some ''a''"
proof -
  define h :: store where
    "h = (\<lambda>a. \<lparr>coords = (if a = 0 then [Fin 0, Fin 3, Fin 4] else [Fin 1, Fin 0, Fin 1]),
               label = None\<rparr>)"
  define r where "r = explodeNDPoints h [0, 1] [''a'', ''b''] (Fin 1) (Fin 2)"
  have "explode3DPoints h [0, 1] [''a'', ''b''] (Fin 1) (Fin 2) Undefined Undefined Undefined
          = (fst r, snd r) \<or>
        explodeNDPoints h [0, 1] [''a'', ''b''] (Fin 1) (Fin 2) = (fst r, snd r)"
    by (simp add: r_def)
  from transforms_frame [OF this, of Undefined]
  have len: "length (fst r) = length [0, 1 :: nat]"
    and lab: "\<forall>i < length [0, 1 :: nat]. label (fst r ! i) = labelAt [''a'', ''b''] i"
    and co: "\<forall>a. coords (snd r a) = coords (h a)"
    and last: "\<forall>i < length [0, 1 :: nat].
        (\<forall>j. i < j \<and> j < length [0, 1 :: nat] \<longrightarrow> [0, 1 :: nat] ! j \<noteq> [0, 1] ! i) \<longrightarrow>
        label (snd r ([0, 1] ! i)) = labelAt [''a'', ''b''] i"
    by blast+
  have "\<forall>j. 0 < j \<and> j < length [0, 1 :: nat] \<longrightarrow> [0, 1 :: nat] ! j \<noteq> [0, 1] ! 0"
    by (auto simp: less_Suc_eq)
  with last [rule_format, of 0] have l0: "label (snd r 0) = Some ''a''"
    by (simp add: labelAt_def)
  from lab [rule_format, of 1] have l1: "label (fst r ! 1) = Some ''b''"
    by (simp add: labelAt_def)
  from co [rule_format, of 0] have c0: "coords (snd r 0) = [Fin 0, Fin 3, Fin 4]"
    by (simp add: h_def)
  from len l0 l1 c0 show ?thesis by (simp add: r_def h_def)
qed

text \<open>The radial transforms write the label to the point they are given.\<close>

theorem explode_modifies_input:
  "snd (explode3DPoints (\<lambda>a. \<lparr>coords = [Fin (real a), Fin 3, Fin 4], label = None\<rparr>)
          [0, 1] [''a'', ''b''] (Fin 1) (Fin 2) Undefined Undefined Undefined) 0
     \<noteq> \<lparr>coords = [Fin (real 0), Fin 3, Fin 4], label = None\<rparr>"
  by (simp add: explode3DPoints_eq labelAt_def eval_nat_numeral)

subsection \<open>Minimum and maximum of finite numbers\<close>

lemma fold_min2_Fin:
  "fold (\<lambda>x m. min2 m x) (map Fin rs) (Fin a) = Fin (fold min rs a)"
  by (induction rs arbitrary: a) (auto simp: min2_def min_def)

lemma fold_max2_Fin:
  "fold (\<lambda>x m. max2 m x) (map Fin rs) (Fin a) = Fin (fold max rs a)"
  by (induction rs arbitrary: a) (auto simp: max2_def max_def)

lemma mathMin_Fin: "rs \<noteq> [] \<Longrightarrow> mathMin (map Fin rs) = Fin (Min (set rs))"
proof (cases rs)
  case Nil
  assume "rs \<noteq> []"
  with Nil show ?thesis by simp
next
  case (Cons r rs')
  have "mathMin (map Fin rs) = fold (\<lambda>x m. min2 m x) (map Fin rs') (Fin r)"
    by (simp add: mathMin_def Cons min2_def)
  also have "\<dots> = Fin (fold min rs' r)" by (rule fold_min2_Fin)
  also have "fold min rs' r = Min (set rs)" unfolding Cons by (rule Min.set_eq_fold [symmetric])
  finally show ?thesis .
qed

lemma mathMax_Fin: "rs \<noteq> [] \<Longrightarrow> mathMax (map Fin rs) = Fin (Max (set rs))"
proof (cases rs)
  case Nil
  assume "rs \<noteq> []"
  with Nil show ?thesis by simp
next
  case (Cons r rs')
  have "mathMax (map Fin rs) = fold (\<lambda>x m. max2 m x) (map Fin rs') (Fin r)"
    by (simp add: mathMax_def Cons max2_def)
  also have "\<dots> = Fin (fold max rs' r)" by (rule fold_max2_Fin)
  also have "fold max rs' r = Max (set rs)" unfolding Cons by (rule Max.set_eq_fold [symmetric])
  finally show ?thesis .
qed

subsection \<open>The depth of the perspective projection\<close>

lemma isDouble_two: "isDouble (Fin 2)"
  using rd_nat [of 2] by simp

lemma nless_nle_trans: "nless a b \<Longrightarrow> nle b c \<Longrightarrow> nless a c"
  by (cases a; cases b; cases c) (auto simp: nle_def)

text \<open>
  The rounded difference of a first coordinate and the least one is not negative, and
  adding \<open>minZVal\<close> to it gives at least \<open>minZVal\<close>, because rounding is monotone and
  leaves a double as it is.
\<close>

lemma fsub_nonneg:
  assumes "mn \<le> x"
  shows "fsub (Fin x) (Fin mn) = PInf \<or> (\<exists>d. 0 \<le> d \<and> fsub (Fin x) (Fin mn) = Fin d)"
proof -
  have "nle (rd 0) (rd (x - mn))" using assms by (intro rd_mono) simp
  then have "nle (Fin 0) (fsub (Fin x) (Fin mn))" by (simp add: fsub_def rd_zero)
  then show ?thesis by (cases "fsub (Fin x) (Fin mn)") (auto simp: nle_def)
qed

lemma perspectiveZ_ge:
  assumes x: "coordAt pt 0 = Fin x" and le: "mn \<le> x"
    and m: "nless NInf m" "isDouble m"
  shows "nle m (perspectiveZ (Fin mn) m pt)"
proof (cases m)
  case (Fin mm)
  with m(2) have mm: "rd mm = Fin mm" by simp
  from fsub_nonneg [OF le] show ?thesis
  proof
    assume "fsub (Fin x) (Fin mn) = PInf"
    then show ?thesis by (simp add: perspectiveZ_def x Fin nle_def)
  next
    assume "\<exists>d. 0 \<le> d \<and> fsub (Fin x) (Fin mn) = Fin d"
    then obtain d where d: "0 \<le> d" "fsub (Fin x) (Fin mn) = Fin d" by blast
    have "nle (rd mm) (rd (d + mm))" using d(1) by (intro rd_mono) simp
    then show ?thesis by (simp add: perspectiveZ_def x Fin d(2) mm)
  qed
next
  case PInf
  from fsub_nonneg [OF le] show ?thesis
    by (auto simp: perspectiveZ_def x PInf nle_def)
next
  case NInf
  with m(1) show ?thesis by simp
next
  case NaN
  with m(1) show ?thesis by simp
qed

text \<open>
  C5, as the code has it: for points whose first coordinate is a finite number and a
  \<open>minZVal\<close> greater than \<open>-Infinity\<close> (2 when it is not given), the translated depth of
  every point, computed in double precision, is at least \<open>minZVal\<close>, so it is not zero
  when \<open>minZVal\<close> is positive; and each new point has one coordinate less than the old
  one. The depth need not be finite: the difference and the sum can overflow.
\<close>

theorem perspective_depth:
  assumes fin: "\<forall>a \<in> set pts. coordAt (coords (h a)) 0 = Fin (X a)"
    and mz: "m = (if minZVal = Undefined then Fin 2 else toNumber minZVal)"
    and m: "nless NInf m" "isDouble m"
    and i: "i < length pts"
  shows "nle m (perspectiveZ (mathMin (map (\<lambda>x. coordAt (coords (h x)) 0) pts)) m
                  (coords (h (pts ! i)))) \<and>
         (nless (Fin 0) m \<longrightarrow>
            perspectiveZ (mathMin (map (\<lambda>x. coordAt (coords (h x)) 0) pts)) m
              (coords (h (pts ! i))) \<noteq> Fin 0) \<and>
         coords (perspectiveProjectPoints h pts labels minZVal ! i) =
           map (\<lambda>x. fdiv x (perspectiveZ (mathMin (map (\<lambda>x. coordAt (coords (h x)) 0) pts)) m
                  (coords (h (pts ! i)))))
             (drop 1 (coords (h (pts ! i)))) \<and>
         length (coords (perspectiveProjectPoints h pts labels minZVal ! i)) + 1 =
           length (coords (h (pts ! i)))"
proof -
  let ?z = "perspectiveZ (mathMin (map (\<lambda>x. coordAt (coords (h x)) 0) pts)) m
              (coords (h (pts ! i)))"
  have ne: "map X pts \<noteq> []" using i by auto
  have eq: "map (\<lambda>x. coordAt (coords (h x)) 0) pts = map Fin (map X pts)"
    using fin by simp
  have zmin: "mathMin (map (\<lambda>x. coordAt (coords (h x)) 0) pts) = Fin (Min (set (map X pts)))"
    unfolding eq by (rule mathMin_Fin [OF ne])
  have mem: "pts ! i \<in> set pts" using i by simp
  then have xi: "coordAt (coords (h (pts ! i))) 0 = Fin (X (pts ! i))" using fin by blast
  then have nonempty: "coords (h (pts ! i)) \<noteq> []"
    by (auto simp: coordAt_def split: if_splits)
  have le: "Min (set (map X pts)) \<le> X (pts ! i)"
    using mem by (intro Min_le) auto
  have ge: "nle m ?z"
    unfolding zmin by (rule perspectiveZ_ge [OF xi le m])
  have nz: "nless (Fin 0) m \<longrightarrow> ?z \<noteq> Fin 0"
  proof
    assume "nless (Fin 0) m"
    from nless_nle_trans [OF this ge] show "?z \<noteq> Fin 0" by auto
  qed
  have c: "coords (perspectiveProjectPoints h pts labels minZVal ! i) =
      map (\<lambda>x. fdiv x ?z) (drop 1 (coords (h (pts ! i))))"
    using i by (simp add: perspectiveProjectPoints_def Let_def mz)
  have "length (coords (perspectiveProjectPoints h pts labels minZVal ! i)) + 1 =
      length (coords (h (pts ! i)))"
    using nonempty by (simp add: c Suc_leI)
  with ge nz c show ?thesis by blast
qed

theorem perspective_depth_witness:
  "perspectiveZ (mathMin (map (\<lambda>x. coordAt (coords
       (\<lparr>coords = [Fin (real x), Fin 3, Fin 4], label = None\<rparr>)) 0) [5, 7])) (Fin 2)
     [Fin (real 7), Fin 3, Fin 4] = Fin 4 \<and>
   nle (Fin 2) (Fin 4) \<and>
   coords (perspectiveProjectPoints (\<lambda>a. \<lparr>coords = [Fin (real a), Fin 3, Fin 4], label = None\<rparr>)
     [5, 7] [] Undefined ! 1) = [Fin (3 / 4), Fin 1]"
proof -
  define h :: store where "h = (\<lambda>a. \<lparr>coords = [Fin (real a), Fin 3, Fin 4], label = None\<rparr>)"
  have fin: "\<forall>a \<in> set [5, 7]. coordAt (coords (h a)) 0 = Fin (real a)"
    by (simp add: h_def coordAt_def)
  have mz: "Fin 2 = (if Undefined = Undefined then Fin 2 else toNumber Undefined)" by simp
  have m: "nless NInf (Fin 2)" "isDouble (Fin 2)" by (simp_all add: rd_eval)
  have i: "1 < length [5, 7 :: nat]" by simp
  have z: "perspectiveZ (mathMin (map (\<lambda>x. coordAt (coords (h x)) 0) [5, 7])) (Fin 2)
          (coords (h ([5, 7] ! 1))) = Fin 4"
    by (simp add: perspectiveZ_def fsub_def mathMin_def min2_def coordAt_def h_def rd_eval)
  from perspective_depth [OF fin mz m i, of "[]"]
  have ge: "nle (Fin 2) (perspectiveZ (mathMin (map (\<lambda>x. coordAt (coords (h x)) 0) [5, 7]))
          (Fin 2) (coords (h ([5, 7] ! 1))))"
    and c: "coords (perspectiveProjectPoints h [5, 7] [] Undefined ! 1) =
          map (\<lambda>x. fdiv x (perspectiveZ (mathMin (map (\<lambda>x. coordAt (coords (h x)) 0) [5, 7]))
            (Fin 2) (coords (h ([5, 7] ! 1))))) (drop 1 (coords (h ([5, 7] ! 1))))"
    by blast+
  have "fdiv (Fin 3) (Fin 4) = Fin (3 / 4)" "fdiv (Fin 4) (Fin 4) = Fin 1"
    by (simp_all add: rd_eval)
  with z ge c show ?thesis by (simp add: h_def)
qed

text \<open>
  The depth is not always as the claim has it: with \<open>minZVal = 0\<close> the depth of the
  nearest point is zero and its coordinates are divided by zero; a first coordinate that
  is not finite, a \<open>minZVal\<close> that is NaN, and a \<open>minZVal\<close> of \<open>-Infinity\<close> added to a
  difference that overflows give the depth NaN, which is not at least \<open>minZVal\<close>.
\<close>

theorem perspective_depth_fails:
  "perspectiveZ (mathMin (map (\<lambda>x. coordAt (coords
       (\<lparr>coords = [Fin (real x), Fin 3, Fin 4], label = None\<rparr>)) 0) [5, 7])) (toNumber (Number (Fin 0)))
     [Fin (real 5), Fin 3, Fin 4] = Fin 0 \<and>
   coords (perspectiveProjectPoints (\<lambda>a. \<lparr>coords = [Fin (real a), Fin 3, Fin 4], label = None\<rparr>)
     [5, 7] [] (Number (Fin 0)) ! 0) = [PInf, PInf] \<and>
   perspectiveZ (mathMin [PInf]) (Fin 2) [PInf, Fin 1] = NaN \<and>
   \<not> nle (Fin 2) NaN \<and>
   perspectiveZ (mathMin [Fin 5, Fin 7]) (toNumber (Number NaN)) [Fin 5, Fin 3, Fin 4] = NaN \<and>
   \<not> nle NaN NaN \<and>
   perspectiveZ (mathMin [Fin (2 ^ 1023), Fin (- (2 ^ 1023))]) (toNumber (Number NInf))
     [Fin (2 ^ 1023), Fin 1] = NaN \<and>
   \<not> nle NInf NaN"
proof -
  have a: "perspectiveZ (mathMin (map (\<lambda>x. coordAt (coords
       (\<lparr>coords = [Fin (real x), Fin 3, Fin 4], label = None\<rparr>)) 0) [5, 7])) (toNumber (Number (Fin 0)))
     [Fin (real 5), Fin 3, Fin 4] = Fin 0"
    by (simp add: perspectiveZ_def fsub_def mathMin_def min2_def coordAt_def rd_zero)
  have b: "coords (perspectiveProjectPoints
      (\<lambda>a. \<lparr>coords = [Fin (real a), Fin 3, Fin 4], label = None\<rparr>)
      [5, 7] [] (Number (Fin 0)) ! 0) = [PInf, PInf]"
    by (simp add: perspectiveProjectPoints_def perspectiveZ_def fsub_def mathMin_def min2_def
          coordAt_def Let_def upt_rec rd_zero)
  have c: "perspectiveZ (mathMin [PInf]) (Fin 2) [PInf, Fin 1] = NaN"
    by (simp add: perspectiveZ_def fsub_def mathMin_def min2_def coordAt_def)
  have d: "perspectiveZ (mathMin [Fin 5, Fin 7]) (toNumber (Number NaN)) [Fin 5, Fin 3, Fin 4] = NaN"
    by (simp add: perspectiveZ_def fsub_def mathMin_def min2_def coordAt_def rd_zero)
  have "pow2 1024 \<le> 2 ^ 1023 - - (2 ^ 1023)" by (simp add: pow2_def)
  then have "rd (2 ^ 1023 - - (2 ^ 1023)) = PInf" by (rule rd_overflow)
  then have "fsub (Fin (2 ^ 1023)) (Fin (- (2 ^ 1023))) = PInf" by (simp add: fsub_def)
  moreover have "mathMin [Fin (2 ^ 1023), Fin (- (2 ^ 1023))] = Fin (- (2 ^ 1023))"
    by (simp add: mathMin_def min2_def)
  ultimately have e: "perspectiveZ (mathMin [Fin (2 ^ 1023), Fin (- (2 ^ 1023))])
      (toNumber (Number NInf)) [Fin (2 ^ 1023), Fin 1] = NaN"
    by (simp add: perspectiveZ_def coordAt_def)
  from a b c d e show ?thesis by (simp add: nle_def)
qed

text \<open>
  A difference that overflows: the depth of the nearer of two points at \<open>\<plusminus> 2 ^ 1023\<close> is
  \<open>Infinity\<close>, and its coordinates become zero.
\<close>

lemma perspective_depth_overflow:
  "perspectiveZ (mathMin [Fin (2 ^ 1023), Fin (- (2 ^ 1023))]) (Fin 2) [Fin (2 ^ 1023), Fin 1]
     = PInf \<and>
   fdiv (Fin 1) PInf = Fin 0"
proof -
  have "pow2 1024 \<le> 2 ^ 1023 - - (2 ^ 1023)" by (simp add: pow2_def)
  then have "rd (2 ^ 1023 - - (2 ^ 1023)) = PInf" by (rule rd_overflow)
  then have "fsub (Fin (2 ^ 1023)) (Fin (- (2 ^ 1023))) = PInf" by (simp add: fsub_def)
  moreover have "mathMin [Fin (2 ^ 1023), Fin (- (2 ^ 1023))] = Fin (- (2 ^ 1023))"
    by (simp add: mathMin_def min2_def)
  ultimately show ?thesis by (simp add: perspectiveZ_def coordAt_def)
qed

subsection \<open>Division by a zero length or a zero range\<close>

lemma rotate_NaN:
  "(case mtranspose (mmult (rotateXY a) (mtranspose [[NaN, NaN]])) of [] \<Rightarrow> [] | row # _ \<Rightarrow> row)
     = [NaN, NaN]"
  by (simp add: mtranspose_def mmult_def rotateXY_def nsum_def coordAt_def upt_rec)

lemma len3_zero:
  assumes "nsqrt (y * y + z * z) = Fin 0"
  shows "y = Fin 0 \<and> z = Fin 0"
proof -
  obtain a where y: "y = Fin a"
    using assms by (cases y; cases z) (simp_all add: jsnum_ops infOfSign_def)
  obtain b where z: "z = Fin b"
    using assms by (cases y; cases z) (simp_all add: jsnum_ops infOfSign_def)
  from assms have "sqrt (a * a + b * b) = 0"
    unfolding y z by (simp split: if_splits)
  then have "a = 0 \<and> b = 0" by (simp add: sum_squares_eq_zero_iff)
  then show ?thesis by (simp add: y z)
qed

lemma explode3DCoords_NaN:
  assumes "nsqrt (coordAt pt 1 * coordAt pt 1 + coordAt pt 2 * coordAt pt 2) = Fin 0 \<or>
           findR rMin rMax xMin xMax (coordAt pt 0) = NaN"
  shows "explode3DCoords rMin rMax aMin aMax doKeepCoords xMin xMax pt = [NaN, NaN]"
  using assms
proof
  assume l: "nsqrt (coordAt pt 1 * coordAt pt 1 + coordAt pt 2 * coordAt pt 2) = Fin 0"
  from len3_zero [OF l] have "coordAt pt 1 = Fin 0" "coordAt pt 2 = Fin 0" by simp_all
  then show ?thesis
    by (simp add: explode3DCoords_def Let_def rotate_NaN)
next
  assume "findR rMin rMax xMin xMax (coordAt pt 0) = NaN"
  then show ?thesis
    by (simp add: explode3DCoords_def Let_def rotate_NaN)
qed

lemma sq_not_Fin: "x * x = PInf \<or> x * x = NaN \<or> (\<exists>r. x = Fin r)"
  by (cases x) (simp_all add: jsnum_ops infOfSign_def)

lemma foldl_sq_inf:
  "acc = PInf \<or> acc = NaN \<Longrightarrow>
     foldl (+) acc (map (\<lambda>x. x * x) q) = PInf \<or> foldl (+) acc (map (\<lambda>x. x * x) q) = NaN"
proof (induction q arbitrary: acc)
  case Nil
  then show ?case by simp
next
  case (Cons x q)
  have "acc + x * x = PInf \<or> acc + x * x = NaN"
    using Cons.prems sq_not_Fin [of x] by (auto simp: jsnum_ops)
  from Cons.IH [OF this] show ?case by simp
qed

lemma foldl_sq_Fin:
  assumes "foldl (+) (Fin a) (map (\<lambda>x. x * x) q) = Fin s"
  shows "\<exists>rs. q = map Fin rs \<and> s = a + sum_list (map (\<lambda>r. r * r) rs)"
  using assms
proof (induction q arbitrary: a)
  case Nil
  then show ?case by simp
next
  case (Cons x q)
  from sq_not_Fin [of x] show ?case
  proof (elim disjE exE)
    assume "x * x = PInf"
    then have "Fin a + x * x = PInf \<or> Fin a + x * x = NaN" by (simp add: jsnum_ops)
    from foldl_sq_inf [OF this, of q] Cons.prems show ?thesis by auto
  next
    assume "x * x = NaN"
    then have "Fin a + x * x = PInf \<or> Fin a + x * x = NaN" by simp
    from foldl_sq_inf [OF this, of q] Cons.prems show ?thesis by auto
  next
    fix r assume x: "x = Fin r"
    with Cons.prems have "foldl (+) (Fin (a + r * r)) (map (\<lambda>x. x * x) q) = Fin s" by simp
    from Cons.IH [OF this] obtain rs where "q = map Fin rs"
      "s = a + r * r + sum_list (map (\<lambda>r. r * r) rs)" by blast
    then have "x # q = map Fin (r # rs) \<and> s = a + sum_list (map (\<lambda>r. r * r) (r # rs))"
      using x by simp
    then show ?thesis by (rule exI [of _ "r # rs"])
  qed
qed

lemma vectorLen_Fin:
  assumes "vectorLen q = Fin l"
  shows "\<exists>rs. q = map Fin rs \<and> l = sqrt (sum_list (map (\<lambda>r. r * r) rs))"
proof -
  from assms obtain s where s: "nsum (map (\<lambda>x. x * x) q) = Fin s" and l: "l = sqrt s"
    unfolding vectorLen_def by (cases "nsum (map (\<lambda>x. x * x) q)") (auto split: if_splits)
  from foldl_sq_Fin [OF s [unfolded nsum_def]] l show ?thesis by auto
qed

lemma sum_sq_zero: "sum_list (map (\<lambda>r. r * r) rs) = (0::real) \<Longrightarrow> set rs \<subseteq> {0}"
proof (induction rs)
  case Nil
  then show ?case by simp
next
  case (Cons r rs)
  have "0 \<le> sum_list (map (\<lambda>r. r * r) rs)" by (rule sum_list_nonneg) auto
  moreover have "0 \<le> r * r" by simp
  ultimately have "r * r = 0" "sum_list (map (\<lambda>r. r * r) rs) = 0"
    using Cons.prems by (auto simp: add_nonneg_eq_0_iff)
  then show ?case using Cons.IH by simp
qed

lemma explodeNDCoords_NaN:
  assumes "vectorLen (drop 1 pt) = Fin 0 \<or> findR rMin rMax xMin xMax (coordAt pt 0) = NaN"
  shows "explodeNDCoords rMin rMax xMin xMax pt = replicate (length pt - 1) NaN"
  using assms
proof
  assume l: "vectorLen (drop 1 pt) = Fin 0"
  from vectorLen_Fin [OF l] obtain rs where rs: "drop 1 pt = map Fin rs"
    "0 = sqrt (sum_list (map (\<lambda>r. r * r) rs))" by blast
  then have "set rs \<subseteq> {0}" using sum_sq_zero by simp
  then have z: "\<And>x. x \<in> set (drop 1 pt) \<Longrightarrow> x = Fin 0" unfolding rs(1) by auto
  have "\<And>x. x \<in> set (drop 1 pt) \<Longrightarrow>
      x / Fin 0 * findR rMin rMax xMin xMax (coordAt pt 0) = NaN"
  proof -
    fix x assume "x \<in> set (drop 1 pt)"
    from z [OF this] show "x / Fin 0 * findR rMin rMax xMin xMax (coordAt pt 0) = NaN"
      by (simp only: Fin_arith NaN_absorbs)
  qed
  then have "map (\<lambda>x. x / Fin 0 * findR rMin rMax xMin xMax (coordAt pt 0)) (drop 1 pt) =
      map (\<lambda>x. NaN) (drop 1 pt)"
    by (intro map_cong) simp_all
  then show ?thesis
    unfolding explodeNDCoords_def Let_def l by (simp add: map_replicate_const)
next
  assume "findR rMin rMax xMin xMax (coordAt pt 0) = NaN"
  then show ?thesis
    by (simp add: explodeNDCoords_def Let_def map_replicate_const)
qed

text \<open>
  C8: when the coordinates of a point other than the first have length zero, both radial
  transforms still return a list of as many points, and every coordinate of the new
  point is NaN.
\<close>

theorem zero_length_not_finite:
  assumes "i < length pts" and "pt = coords (h (pts ! i))"
  shows "(nsqrt (coordAt pt 1 * coordAt pt 1 + coordAt pt 2 * coordAt pt 2) = Fin 0 \<longrightarrow>
            (\<exists>newP h'. explode3DPoints h pts labels rMin rMax aMin aMax doKeepCoords = (newP, h') \<and>
               length newP = length pts \<and> coords (newP ! i) = [NaN, NaN])) \<and>
         (vectorLen (drop 1 pt) = Fin 0 \<longrightarrow>
            (\<exists>newP h'. explodeNDPoints h pts labels rMin rMax = (newP, h') \<and>
               length newP = length pts \<and> coords (newP ! i) = replicate (length pt - 1) NaN))"
  using assms
  by (simp add: explode3DPoints_eq explodeNDPoints_eq explode3DCoords_NaN explodeNDCoords_NaN)

theorem zero_length_not_finite_witness:
  "coords (fst (explode3DPoints
      (\<lambda>a. \<lparr>coords = (if a = 0 then [Fin 5, Fin 0, Fin 0] else [Fin 6, Fin 3, Fin 4]),
             label = None\<rparr>) [0, 1] [''a'', ''b''] (Fin 1) (Fin 2) Undefined Undefined Undefined) ! 0)
     = [NaN, NaN] \<and>
   coords (fst (explodeNDPoints
      (\<lambda>a. \<lparr>coords = (if a = 0 then [Fin 5, Fin 0, Fin 0] else [Fin 6, Fin 3, Fin 4]),
             label = None\<rparr>) [0, 1] [''a'', ''b''] (Fin 1) (Fin 2)) ! 0)
     = [NaN, NaN]"
proof -
  define h :: store where
    "h = (\<lambda>a. \<lparr>coords = (if a = 0 then [Fin 5, Fin 0, Fin 0] else [Fin 6, Fin 3, Fin 4]),
               label = None\<rparr>)"
  have i: "0 < length [0, 1 :: nat]" by simp
  have pt: "[Fin 5, Fin 0, Fin 0] = coords (h ([0, 1] ! 0))" by (simp add: h_def)
  have l3: "nsqrt (coordAt [Fin 5, Fin 0, Fin 0] 1 * coordAt [Fin 5, Fin 0, Fin 0] 1 +
                  coordAt [Fin 5, Fin 0, Fin 0] 2 * coordAt [Fin 5, Fin 0, Fin 0] 2) = Fin 0"
    by (simp add: coordAt_def)
  have ln: "vectorLen (drop 1 [Fin 5, Fin 0, Fin 0]) = Fin 0"
    by (simp add: vectorLen_def nsum_def)
  from zero_length_not_finite [where h = h and pts = "[0, 1]" and i = 0
      and pt = "[Fin 5, Fin 0, Fin 0]" and labels = "[''a'', ''b'']" and rMin = "Fin 1"
      and rMax = "Fin 2" and aMin = Undefined and aMax = Undefined and doKeepCoords = Undefined,
      OF i pt] l3 ln
  have "coords (fst (explode3DPoints h [0, 1] [''a'', ''b''] (Fin 1) (Fin 2) Undefined Undefined
            Undefined) ! 0) = [NaN, NaN] \<and>
        coords (fst (explodeNDPoints h [0, 1] [''a'', ''b''] (Fin 1) (Fin 2)) ! 0) = [NaN, NaN]"
    by (auto simp: eval_nat_numeral)
  then show ?thesis by (simp add: h_def)
qed

text \<open>
  C10: when all points have the same first coordinate, the radius is NaN, and both radial
  transforms return a list of as many points whose coordinates are all NaN.
\<close>

theorem equal_depth_not_finite:
  assumes "\<forall>a \<in> set pts. coordAt (coords (h a)) 0 = x" and "i < length pts"
  shows "(\<exists>newP h'. explode3DPoints h pts labels rMin rMax aMin aMax doKeepCoords = (newP, h') \<and>
            length newP = length pts \<and> coords (newP ! i) = [NaN, NaN]) \<and>
         (\<exists>newP h'. explodeNDPoints h pts labels rMin rMax = (newP, h') \<and>
            length newP = length pts \<and>
            coords (newP ! i) = replicate (length (coords (h (pts ! i))) - 1) NaN)"
proof -
  have ne: "map (\<lambda>x. coordAt (coords (h x)) 0) pts \<noteq> []" using assms(2) by auto
  have sub: "set (map (\<lambda>x. coordAt (coords (h x)) 0) pts) \<subseteq> {x}" using assms(1) by auto
  have xi: "coordAt (coords (h (pts ! i))) 0 = x" using assms by simp
  have r: "findR rMin rMax (mathMin (map (\<lambda>x. coordAt (coords (h x)) 0) pts))
      (mathMax (map (\<lambda>x. coordAt (coords (h x)) 0) pts)) (coordAt (coords (h (pts ! i))) 0) = NaN"
    unfolding mathMin_same [OF ne sub] xi by (rule findR_same)
  show ?thesis
    using assms(2) r
    by (simp add: explode3DPoints_eq explodeNDPoints_eq explode3DCoords_NaN explodeNDCoords_NaN)
qed

theorem equal_depth_not_finite_witness:
  "coords (fst (explode3DPoints
      (\<lambda>a. \<lparr>coords = (if a = 0 then [Fin 5, Fin 1, Fin 0] else [Fin 5, Fin 3, Fin 4]),
             label = None\<rparr>) [0, 1] [''a'', ''b''] (Fin 1) (Fin 2) Undefined Undefined Undefined) ! 1)
     = [NaN, NaN] \<and>
   coords (fst (explodeNDPoints
      (\<lambda>a. \<lparr>coords = (if a = 0 then [Fin 5, Fin 1, Fin 0] else [Fin 5, Fin 3, Fin 4]),
             label = None\<rparr>) [0, 1] [''a'', ''b''] (Fin 1) (Fin 2)) ! 1)
     = [NaN, NaN]"
proof -
  define h :: store where
    "h = (\<lambda>a. \<lparr>coords = (if a = 0 then [Fin 5, Fin 1, Fin 0] else [Fin 5, Fin 3, Fin 4]),
               label = None\<rparr>)"
  have a: "\<forall>a \<in> set [0, 1 :: nat]. coordAt (coords (h a)) 0 = Fin 5"
    by (simp add: h_def coordAt_def)
  have i: "1 < length [0, 1 :: nat]" by simp
  from equal_depth_not_finite [where h = h and pts = "[0, 1]" and i = 1 and x = "Fin 5"
      and labels = "[''a'', ''b'']" and rMin = "Fin 1"
      and rMax = "Fin 2" and aMin = Undefined and aMax = Undefined and doKeepCoords = Undefined,
      OF a i]
  have "coords (fst (explode3DPoints h [0, 1] [''a'', ''b''] (Fin 1) (Fin 2) Undefined Undefined
            Undefined) ! 1) = [NaN, NaN] \<and>
        coords (fst (explodeNDPoints h [0, 1] [''a'', ''b''] (Fin 1) (Fin 2)) ! 1) = [NaN, NaN]"
    by (auto simp: h_def eval_nat_numeral)
  then show ?thesis by (simp add: h_def)
qed

end
